theory Spec2Isabelle
  imports Main
begin

section \<open>Data model\<close>

text \<open>
  The payload of a request (\<^verbatim>\<open>request.data\<close>) is a parsed JSON value. Numbers are
  integers, as the request schemas type every id and every score.
\<close>

datatype json =
    JNull
  | JBool bool
  | JInt int
  | JStr string
  | JList "json list"
  | JObj "(string \<times> json) list"

text \<open>Python truthiness, as used by \<^verbatim>\<open>if not sumula_id\<close>.\<close>

fun truthy :: "json \<Rightarrow> bool" where
  "truthy JNull = False"
| "truthy (JBool b) = b"
| "truthy (JInt n) = (n \<noteq> 0)"
| "truthy (JStr s) = (s \<noteq> [])"
| "truthy (JList xs) = (xs \<noteq> [])"
| "truthy (JObj kvs) = (kvs \<noteq> [])"

text \<open>\<^verbatim>\<open>key in d\<close> and \<^verbatim>\<open>d[key]\<close> / \<^verbatim>\<open>d.get(key)\<close> on a value that is a dict.\<close>

fun has_key :: "json \<Rightarrow> string \<Rightarrow> bool" where
  "has_key (JObj kvs) k = (map_of kvs k \<noteq> None)"
| "has_key _ k = False"

fun get_key :: "json \<Rightarrow> string \<Rightarrow> json option" where
  "get_key (JObj kvs) k = map_of kvs k"
| "get_key _ k = None"

text \<open>
  The rows of the tables. The models module is not part of the sources at hand; the
  fields are the ones the views and the serializers read and write.
\<close>

record user =
  user_id :: int
  email :: string
  first_name :: string
  last_name :: string

record event =
  event_id :: int
  event_name :: string
  admin_email :: string

record staff =
  staff_id :: int
  staff_user :: int
  staff_event :: int
  is_manager :: bool

record player =
  player_id :: int
  player_user :: int
  player_event :: int
  total_score :: int
  registration_email :: string
  is_imortal :: bool

text \<open>\<open>referee\<close> is the many-to-many set of staff ids of the sumula.\<close>

record sumula =
  sumula_id :: int
  sumula_event :: int
  name :: string
  active :: bool
  referee :: "int list"

text \<open>
  A PlayerScore points at a sumula of one of the two families through one of two
  nullable foreign keys (\<^verbatim>\<open>sumula_classificatoria\<close>, \<^verbatim>\<open>sumula_imortal\<close>).
\<close>

record player_score =
  score_id :: int
  score_player :: int
  score_event :: int
  sumula_classificatoria :: "int option"
  sumula_imortal :: "int option"
  points :: int

record db =
  users :: "user list"
  events :: "event list"
  staffs :: "staff list"
  players :: "player list"
  sumulas_classificatoria :: "sumula list"
  sumulas_imortal :: "sumula list"
  player_scores :: "player_score list"

text \<open>
  An authenticated request: the views run behind \<^verbatim>\<open>IsAuthenticated\<close>, so
  \<^verbatim>\<open>request.user\<close> is a user. \<open>query_event_id\<close> is the \<^verbatim>\<open>event_id\<close> query
  parameter, absent when \<open>None\<close>.
\<close>

record request =
  http_method :: string
  req_user :: user
  query_event_id :: "int option"
  req_data :: json

text \<open>
  What the framework supplies and the repository does not define: the object-scoped
  permission lookup \<^verbatim>\<open>user.has_perm(perm, obj)\<close> and the coercion of a value to an
  integer field (a primary key, a score) and to the text of a character field
  (\<open>None\<close> where the ORM raises), and the metadata it answers an OPTIONS request with.
\<close>

record framework =
  has_perm :: "user \<Rightarrow> string \<Rightarrow> event \<Rightarrow> bool"
  to_int :: "json \<Rightarrow> int option"
  to_text :: "json \<Rightarrow> string option"
  options_body :: json

text \<open>
  A response carries a status and a body. An exception that no handler of the view
  catches leaves the view as \<open>ServerError\<close>.
\<close>

datatype response = Response nat json | ServerError

section \<open>Strings of the views\<close>

definition SUMULA_IS_CLOSED_ERROR_MESSAGE :: string where
  "SUMULA_IS_CLOSED_ERROR_MESSAGE =
     ''S'' @ [CHR 0xFA] @ ''mula j'' @ [CHR 0xE1] @ '' encerrada s'' @ [CHR 0xF3] @
     '' pode ser editada por um gerente ou adminstrador!''"

text \<open>The message of lines 99, 138, 213, 254 and 413 of the views; its tenth character is U+00E1.\<close>

definition dados_invalidos :: string where
  "dados_invalidos = ''Dados inv'' @ [CHR 0xE1] @ ''lidos!''"

text \<open>\<^verbatim>\<open>"Dados Invalidos!"\<close>, the literal of line 140 of the views.\<close>

definition dados_Invalidos_140 :: string where
  "dados_Invalidos_140 = ''Dados Invalidos!''"

text \<open>
  Modelled from the spec: \<^verbatim>\<open>SUMULA_NOT_FOUND_ERROR_MESSAGE\<close> and
  \<^verbatim>\<open>SUMULA_ID_NOT_PROVIDED_ERROR_MESSAGE\<close> of the absent \<^verbatim>\<open>base_views\<close>. The first
  is the text the tests expect; the text of the second is not known and stands for
  itself.
\<close>

definition SUMULA_NOT_FOUND_ERROR_MESSAGE :: string where
  "SUMULA_NOT_FOUND_ERROR_MESSAGE = ''Sumula n'' @ [CHR 0xE3] @ ''o encontrada!''"

definition SUMULA_ID_NOT_PROVIDED_ERROR_MESSAGE :: string where
  "SUMULA_ID_NOT_PROVIDED_ERROR_MESSAGE = ''SUMULA_ID_NOT_PROVIDED_ERROR_MESSAGE''"

text \<open>
  Modelled from the spec: \<^verbatim>\<open>handle_400_error\<close> of the absent \<^verbatim>\<open>utils\<close>; the error
  shape is \<^verbatim>\<open>{errors: <message>}\<close> with status 400.
\<close>

definition handle_400_error :: "string \<Rightarrow> response" where
  "handle_400_error msg = Response 400 (JObj [(''errors'', JStr msg)])"

text \<open>The framework's answer to a refused permission check.\<close>

definition permission_denied :: response where
  "permission_denied =
     Response 403 (JObj [(''detail'', JStr ''You do not have permission to perform this action.'')])"

section \<open>Permission gate\<close>

text \<open>\<^verbatim>\<open>HasSumulaPermission.has_object_permission\<close>.\<close>

definition has_object_permission :: "framework \<Rightarrow> request \<Rightarrow> event \<Rightarrow> bool" where
  "has_object_permission fw req obj =
     (if http_method req = ''POST'' then has_perm fw (req_user req) ''api.add_sumula_event'' obj
      else if http_method req = ''GET'' then has_perm fw (req_user req) ''api.view_sumula_event'' obj
      else if http_method req = ''PUT'' then has_perm fw (req_user req) ''api.change_sumula_event'' obj
      else if http_method req = ''DELETE'' then has_perm fw (req_user req) ''api.delete_sumula_event'' obj
      else True)"

text \<open>\<^verbatim>\<open>GetSumulaForPlayerPermission.has_object_permission\<close>.\<close>

definition player_has_object_permission :: "framework \<Rightarrow> request \<Rightarrow> event \<Rightarrow> bool" where
  "player_has_object_permission fw req obj =
     (if http_method req = ''GET'' then has_perm fw (req_user req) ''api.view_event'' obj
      else False)"

text \<open>
  The framework's \<^verbatim>\<open>check_object_permissions\<close>: it raises PermissionDenied, answered
  with 403, when a permission class refuses; \<open>None\<close> when the request may go on.
\<close>

definition check_object_permissions :: "framework \<Rightarrow> request \<Rightarrow> event \<Rightarrow> response option" where
  "check_object_permissions fw req obj =
     (if has_object_permission fw req obj then None else Some permission_denied)"


section \<open>Tables\<close>

text \<open>The key of a new row: one more than the largest key of the table.\<close>

definition next_id :: "int list \<Rightarrow> int" where
  "next_id ids = fold max ids 0 + 1"

datatype variant = Classificatoria | Imortal

fun sumula_table :: "variant \<Rightarrow> db \<Rightarrow> sumula list" where
  "sumula_table Classificatoria d = sumulas_classificatoria d"
| "sumula_table Imortal d = sumulas_imortal d"

fun set_sumula_table :: "variant \<Rightarrow> sumula list \<Rightarrow> db \<Rightarrow> db" where
  "set_sumula_table Classificatoria tbl d = d\<lparr>sumulas_classificatoria := tbl\<rparr>"
| "set_sumula_table Imortal tbl d = d\<lparr>sumulas_imortal := tbl\<rparr>"

text \<open>The foreign key of a PlayerScore into the family \<open>v\<close>.\<close>

fun score_sumula :: "variant \<Rightarrow> player_score \<Rightarrow> int option" where
  "score_sumula Classificatoria ps = sumula_classificatoria ps"
| "score_sumula Imortal ps = sumula_imortal ps"

text \<open>\<^verbatim>\<open>Model.objects.filter(id=i).first()\<close>.\<close>

definition find_sumula :: "sumula list \<Rightarrow> int \<Rightarrow> sumula option" where
  "find_sumula tbl i = find (\<lambda>s. sumula_id s = i) tbl"

definition find_event :: "db \<Rightarrow> int \<Rightarrow> event option" where
  "find_event d i = find (\<lambda>e. event_id e = i) (events d)"

definition find_user :: "db \<Rightarrow> int \<Rightarrow> user option" where
  "find_user d i = find (\<lambda>u. user_id u = i) (users d)"

definition find_player :: "db \<Rightarrow> int \<Rightarrow> player option" where
  "find_player d i = find (\<lambda>p. player_id p = i) (players d)"

text \<open>\<^verbatim>\<open>Staff.objects.filter(user=request.user, event=event).first()\<close>.\<close>

definition find_staff_of :: "db \<Rightarrow> user \<Rightarrow> event \<Rightarrow> staff option" where
  "find_staff_of d u ev =
     find (\<lambda>s. staff_user s = user_id u \<and> staff_event s = event_id ev) (staffs d)"

text \<open>\<^verbatim>\<open>Player.objects.filter(user=request.user, event=event).first()\<close>.\<close>

definition find_player_of :: "db \<Rightarrow> user \<Rightarrow> event \<Rightarrow> player option" where
  "find_player_of d u ev =
     find (\<lambda>p. player_user p = user_id u \<and> player_event p = event_id ev) (players d)"

text \<open>Saving a changed row: every row of the table with that key is replaced.\<close>

definition update_rows :: "('a \<Rightarrow> bool) \<Rightarrow> ('a \<Rightarrow> 'a) \<Rightarrow> 'a list \<Rightarrow> 'a list" where
  "update_rows P f tbl = map (\<lambda>r. if P r then f r else r) tbl"

text \<open>\<^verbatim>\<open>sumula.referee.add(staff)\<close>: adding to a many-to-many set.\<close>

definition referee_add :: "int \<Rightarrow> sumula \<Rightarrow> sumula" where
  "referee_add i s = s\<lparr>referee := (if i \<in> set (referee s) then referee s else referee s @ [i])\<rparr>"

section \<open>Event resolution\<close>

definition event_id_required :: string where
  "event_id_required = ''event_id '' @ [CHR 0xE9] @ '' obrigat'' @ [CHR 0xF3] @ ''rio!''"

definition event_not_found :: string where
  "event_not_found = ''Evento n'' @ [CHR 0xE3] @ ''o encontrado!''"

text \<open>
  Modelled from the spec: \<^verbatim>\<open>get_object\<close> of the absent \<^verbatim>\<open>base_views\<close>, the event
  resolution collaborator: given the event identifier of the request it returns the
  event, or fails with "not provided" or "not found". The two messages are the ones
  the tests expect.
\<close>

definition get_object :: "db \<Rightarrow> request \<Rightarrow> string + event" where
  "get_object d req =
     (case query_event_id req of
        None \<Rightarrow> Inl event_id_required
      | Some i \<Rightarrow> (case find_event d i of None \<Rightarrow> Inl event_not_found | Some ev \<Rightarrow> Inr ev))"

section \<open>Helpers of the base view\<close>

text \<open>
  The views inherit from \<^verbatim>\<open>BaseSumulaView\<close>, whose module (\<^verbatim>\<open>base_views\<close>) is not
  part of the sources at hand. Its methods are modelled from the spec, each under its
  own name. A method takes the arguments the views pass and, being a method of the
  view, what the view itself holds: the request, the database and the family of the
  view. A method that raises returns \<open>Inl\<close> with the message of the exception.
\<close>

text \<open>
  Modelled from the spec: \<^verbatim>\<open>validate_request_data_dict\<close> of the absent
  \<^verbatim>\<open>base_views\<close>; a malformed payload shape is a validation failure, and the payload
  of every operation is an object.
\<close>

fun validate_request_data_dict :: "json \<Rightarrow> bool" where
  "validate_request_data_dict (JObj kvs) = True"
| "validate_request_data_dict _ = False"

fun is_dict_with_id :: "json \<Rightarrow> bool" where
  "is_dict_with_id (JObj kvs) = (map_of kvs ''id'' \<noteq> None)"
| "is_dict_with_id _ = False"

definition player_not_found :: string where
  "player_not_found = ''Jogador n'' @ [CHR 0xE3] @ ''o encontrado!''"

definition not_a_monitor :: string where
  "not_a_monitor = ''Usu'' @ [CHR 0xE1] @ ''rio n'' @ [CHR 0xE3] @ ''o '' @ [CHR 0xE9] @ '' um monitor do evento!''"

text \<open>
  A player reference resolves to an existing Player of the event, of the eligibility
  class of the sumula variant being created.
\<close>

definition resolve_player :: "framework \<Rightarrow> db \<Rightarrow> variant \<Rightarrow> event \<Rightarrow> json \<Rightarrow> player option" where
  "resolve_player fw d v ev p =
     (case get_key p ''id'' of
        None \<Rightarrow> None
      | Some j \<Rightarrow>
          (case to_int fw j of
             None \<Rightarrow> None
           | Some i \<Rightarrow>
               find (\<lambda>q. player_id q = i \<and> player_event q = event_id ev
                          \<and> is_imortal q = (v = Imortal)) (players d)))"

definition new_player_score :: "variant \<Rightarrow> int \<Rightarrow> event \<Rightarrow> player \<Rightarrow> int \<Rightarrow> player_score" where
  "new_player_score v sid ev p i =
     \<lparr>score_id = i, score_player = player_id p, score_event = event_id ev,
      sumula_classificatoria = (if v = Classificatoria then Some sid else None),
      sumula_imortal = (if v = Imortal then Some sid else None),
      points = 0\<rparr>"

fun create_scores :: "variant \<Rightarrow> int \<Rightarrow> event \<Rightarrow> player list \<Rightarrow> player_score list \<Rightarrow> player_score list" where
  "create_scores v sid ev [] tbl = tbl"
| "create_scores v sid ev (p # ps) tbl =
     create_scores v sid ev ps (tbl @ [new_player_score v sid ev p (next_id (map score_id tbl))])"

text \<open>
  Modelled from the spec: \<^verbatim>\<open>create_players_score\<close> of the absent \<^verbatim>\<open>base_views\<close>;
  for every player in \<open>players\<close> it creates exactly one PlayerScore with \<open>points = 0\<close>,
  in a single atomic unit: if any player reference fails to resolve it raises and no
  partial PlayerScore set is persisted.
\<close>

definition create_players_score ::
  "framework \<Rightarrow> variant \<Rightarrow> json list \<Rightarrow> sumula \<Rightarrow> event \<Rightarrow> db \<Rightarrow> string + db" where
  "create_players_score fw v ps s ev d =
     (case those (map (resolve_player fw d v ev) ps) of
        None \<Rightarrow> Inl player_not_found
      | Some qs \<Rightarrow>
          Inr (d\<lparr>player_scores := create_scores v (sumula_id s) ev qs (player_scores d)\<rparr>))"

text \<open>A staff reference resolves to an existing Staff of the event.\<close>

definition resolve_staff :: "framework \<Rightarrow> db \<Rightarrow> event \<Rightarrow> json \<Rightarrow> staff option" where
  "resolve_staff fw d ev r =
     (case get_key r ''id'' of
        None \<Rightarrow> None
      | Some j \<Rightarrow>
          (case to_int fw j of
             None \<Rightarrow> None
           | Some i \<Rightarrow> find (\<lambda>s. staff_id s = i \<and> staff_event s = event_id ev) (staffs d)))"

text \<open>
  Modelled from the spec: \<^verbatim>\<open>validate_players\<close> of the absent \<^verbatim>\<open>base_views\<close>;
  \<open>players\<close> is a non-empty sequence of player references, each resolvable to an
  existing Player of the correct eligibility class for the sumula variant being created,
  and a malformed or empty players list or an unresolvable player id is a validation
  failure reported before any persistence. It is a method of the view: besides the
  payload it knows the family of the view and the event of the request. Where the event
  of the request does not resolve it checks the shape alone, and the view reports the
  event right after.
\<close>

definition validate_players :: "framework \<Rightarrow> db \<Rightarrow> variant \<Rightarrow> request \<Rightarrow> bool" where
  "validate_players fw d v req =
     (case get_key (req_data req) ''players'' of
        Some (JList ps) \<Rightarrow>
          ps \<noteq> [] \<and> list_all is_dict_with_id ps
          \<and> (case get_object d req of
                 Inl e \<Rightarrow> True
               | Inr ev \<Rightarrow> list_all (\<lambda>p. resolve_player fw d v ev p \<noteq> None) ps)
      | _ \<Rightarrow> False)"

text \<open>
  Modelled from the spec: \<^verbatim>\<open>validate_referees\<close> of the absent \<^verbatim>\<open>base_views\<close>;
  \<open>referees\<close> is a sequence of staff references that may be empty, and an
  unresolvable referee id is a validation failure reported before any persistence. Like
  \<^verbatim>\<open>validate_players\<close> it checks the shape alone where the event does not resolve.
\<close>

definition validate_referees :: "framework \<Rightarrow> db \<Rightarrow> request \<Rightarrow> bool" where
  "validate_referees fw d req =
     (case get_key (req_data req) ''referees'' of
        Some (JList rs) \<Rightarrow>
          list_all is_dict_with_id rs
          \<and> (case get_object d req of
                 Inl e \<Rightarrow> True
               | Inr ev \<Rightarrow> list_all (\<lambda>r. resolve_staff fw d ev r \<noteq> None) rs)
      | _ \<Rightarrow> False)"

text \<open>
  Modelled from the spec: \<^verbatim>\<open>add_referees\<close> of the absent \<^verbatim>\<open>base_views\<close>; the
  referees supplied are attached to the sumula, whatever its referee set was. A
  reference that does not resolve raises.
\<close>

definition add_referees ::
  "framework \<Rightarrow> variant \<Rightarrow> sumula \<Rightarrow> event \<Rightarrow> json list \<Rightarrow> db \<Rightarrow> string + db" where
  "add_referees fw v s ev rs d =
     (case those (map (resolve_staff fw d ev) rs) of
        None \<Rightarrow> Inl not_a_monitor
      | Some sts \<Rightarrow>
          Inr (set_sumula_table v
                 (update_rows (\<lambda>r. sumula_id r = sumula_id s)
                    (\<lambda>r. fold referee_add (map staff_id sts) r) (sumula_table v d)) d))"

text \<open>
  An entry of \<open>players_score\<close> resolves when it has an \<open>id\<close> that names an existing
  PlayerScore belonging to the sumula \<open>sid\<close> of the family \<open>v\<close>.
\<close>

definition resolve_score :: "framework \<Rightarrow> db \<Rightarrow> variant \<Rightarrow> int \<Rightarrow> json \<Rightarrow> player_score option" where
  "resolve_score fw d v sid e =
     (case get_key e ''id'' of
        None \<Rightarrow> None
      | Some j \<Rightarrow>
          (case to_int fw j of
             None \<Rightarrow> None
           | Some i \<Rightarrow>
               find (\<lambda>ps. score_id ps = i \<and> score_sumula v ps = Some sid) (player_scores d)))"

text \<open>
  Modelled from the spec: \<^verbatim>\<open>validate_players_score\<close> of the absent \<^verbatim>\<open>base_views\<close>;
  the payload contains, for every PlayerScore being updated, an \<open>id\<close> that must
  resolve to an existing PlayerScore belonging to that sumula, and any missing or
  unresolvable id invalidates the entire request. It is given the payload, whose
  \<open>id\<close> names the sumula.
\<close>

definition validate_players_score :: "framework \<Rightarrow> db \<Rightarrow> variant \<Rightarrow> json \<Rightarrow> bool" where
  "validate_players_score fw d v data =
     (case get_key data ''players_score'' of
        Some (JList es) \<Rightarrow>
          list_all (\<lambda>e.
            case get_key data ''id'' of
              None \<Rightarrow> False
            | Some j \<Rightarrow>
                (case to_int fw j of
                   None \<Rightarrow> False
                 | Some sid \<Rightarrow> resolve_score fw d v sid e \<noteq> None)) es
      | _ \<Rightarrow> False)"

text \<open>
  Modelled from the spec: \<^verbatim>\<open>validate_if_staff_is_sumula_referee\<close> of the absent
  \<^verbatim>\<open>base_views\<close>; it returns the Staff record of the requester for the event, whose
  \<open>is_manager\<close> flag the view reads, and raises when the user has no Staff record for
  the event. The spec states no other condition for it.
\<close>

definition validate_if_staff_is_sumula_referee ::
  "db \<Rightarrow> request \<Rightarrow> sumula \<Rightarrow> event \<Rightarrow> string + staff" where
  "validate_if_staff_is_sumula_referee d req s ev =
     (case find_staff_of d (req_user req) ev of
        None \<Rightarrow> Inl not_a_monitor
      | Some st \<Rightarrow> Inr st)"

text \<open>
  The defined aggregation of a player's scores: the sum of the points of all the
  PlayerScores of the player within the event.
\<close>

definition aggregate_points :: "player_score list \<Rightarrow> int \<Rightarrow> int \<Rightarrow> int" where
  "aggregate_points tbl pid evid =
     sum_list (map points (filter (\<lambda>ps. score_player ps = pid \<and> score_event ps = evid) tbl))"

text \<open>
  One write of the batch: overwrite the points of the PlayerScore and recompute the
  \<open>total_score\<close> of the owning Player from the table as it then is.
\<close>

definition write_points :: "player_score \<Rightarrow> int \<Rightarrow> db \<Rightarrow> db" where
  "write_points ps n d =
     (let scores' = update_rows (\<lambda>r. score_id r = score_id ps) (\<lambda>r. r\<lparr>points := n\<rparr>)
                      (player_scores d)
      in d\<lparr>player_scores := scores',
            players := update_rows (\<lambda>p. player_id p = score_player ps)
                         (\<lambda>p. p\<lparr>total_score := aggregate_points scores' (player_id p) (player_event p)\<rparr>)
                         (players d)\<rparr>)"

text \<open>An entry of \<open>players_score\<close> with the row it names and the points it carries.\<close>

definition resolve_entry ::
  "framework \<Rightarrow> db \<Rightarrow> variant \<Rightarrow> int \<Rightarrow> json \<Rightarrow> (player_score \<times> int) option" where
  "resolve_entry fw d v sid e =
     (case resolve_score fw d v sid e of
        None \<Rightarrow> None
      | Some ps \<Rightarrow>
          (case get_key e ''points'' of
             None \<Rightarrow> None
           | Some j \<Rightarrow> (case to_int fw j of None \<Rightarrow> None | Some n \<Rightarrow> Some (ps, n))))"

text \<open>
  Modelled from the spec: \<^verbatim>\<open>update_sumula\<close> of the absent \<^verbatim>\<open>base_views\<close>, the
  effect of Update/Close on the payload of the request: (1) overwrite the sumula's
  name; (2) set its referee set to exactly the supplied referees; (3) for each supplied
  player-score entry, overwrite its points and recompute the owning Player's
  total_score; (4) set \<open>active\<close> to false. The entire batch is validated before any
  mutation; a failure raises and nothing is applied.
\<close>

definition update_sumula ::
  "framework \<Rightarrow> variant \<Rightarrow> request \<Rightarrow> sumula \<Rightarrow> event \<Rightarrow> db \<Rightarrow> string + db" where
  "update_sumula fw v req s ev d =
     (case (get_key (req_data req) ''name'', get_key (req_data req) ''referee'',
            get_key (req_data req) ''players_score'') of
        (Some jn, Some (JList rs), Some (JList es)) \<Rightarrow>
          (case (to_text fw jn, those (map (resolve_staff fw d ev) rs),
                 those (map (resolve_entry fw d v (sumula_id s)) es)) of
             (Some nm, Some sts, Some ws) \<Rightarrow>
               Inr (fold (\<lambda>(ps, n). write_points ps n) ws
                      (set_sumula_table v
                         (update_rows (\<lambda>r. sumula_id r = sumula_id s)
                            (\<lambda>r. r\<lparr>name := nm, referee := remdups (map staff_id sts), active := False\<rparr>)
                            (sumula_table v d)) d))
           | _ \<Rightarrow> Inl dados_invalidos)
      | _ \<Rightarrow> Inl dados_invalidos)"

text \<open>
  Modelled from the spec: \<^verbatim>\<open>get_sumulas\<close> of the absent \<^verbatim>\<open>base_views\<close>, the query
  layer: the sumulas of an event, of both families, all of them or those of one status.
\<close>

definition get_sumulas :: "db \<Rightarrow> event \<Rightarrow> bool option \<Rightarrow> sumula list \<times> sumula list" where
  "get_sumulas d ev act =
     (let keep = (\<lambda>s. sumula_event s = event_id ev \<and> (case act of None \<Rightarrow> True | Some a \<Rightarrow> active s = a))
      in (filter keep (sumulas_imortal d), filter keep (sumulas_classificatoria d)))"

section \<open>Serializers\<close>

text \<open>\<^verbatim>\<open>UserSerializer\<close>: fields id, first_name, last_name.\<close>

definition UserSerializer :: "user \<Rightarrow> json" where
  "UserSerializer u =
     JObj [(''id'', JInt (user_id u)), (''first_name'', JStr (first_name u)),
           (''last_name'', JStr (last_name u))]"

definition serialize_user_of :: "db \<Rightarrow> int \<Rightarrow> json" where
  "serialize_user_of d i = (case find_user d i of None \<Rightarrow> JNull | Some u \<Rightarrow> UserSerializer u)"

text \<open>\<^verbatim>\<open>PlayerSerializer\<close>: fields id, total_score, registration_email, event, user.\<close>

definition PlayerSerializer :: "db \<Rightarrow> player \<Rightarrow> json" where
  "PlayerSerializer d p =
     JObj [(''id'', JInt (player_id p)), (''total_score'', JInt (total_score p)),
           (''registration_email'', JStr (registration_email p)),
           (''event'', JInt (player_event p)),
           (''user'', serialize_user_of d (player_user p))]"

text \<open>\<^verbatim>\<open>PlayerScoreSerializerForSumula\<close>: fields id, points, player.\<close>

definition PlayerScoreSerializerForSumula :: "db \<Rightarrow> player_score \<Rightarrow> json" where
  "PlayerScoreSerializerForSumula d ps =
     JObj [(''id'', JInt (score_id ps)), (''points'', JInt (points ps)),
           (''player'', (case find_player d (score_player ps) of
                           None \<Rightarrow> JNull | Some p \<Rightarrow> PlayerSerializer d p))]"

text \<open>A referee of a sumula, shown as id, first_name, last_name.\<close>

definition serialize_referee :: "db \<Rightarrow> int \<Rightarrow> json" where
  "serialize_referee d i =
     (case find (\<lambda>st. staff_id st = i) (staffs d) of
        None \<Rightarrow> JNull
      | Some st \<Rightarrow>
          (case find_user d (staff_user st) of
             None \<Rightarrow> JNull
           | Some u \<Rightarrow>
               JObj [(''id'', JInt (staff_id st)), (''first_name'', JStr (first_name u)),
                     (''last_name'', JStr (last_name u))]))"

text \<open>The scores of a sumula: the PlayerScores whose foreign key names it.\<close>

definition scores_of :: "db \<Rightarrow> variant \<Rightarrow> sumula \<Rightarrow> player_score list" where
  "scores_of d v s = filter (\<lambda>ps. score_sumula v ps = Some (sumula_id s)) (player_scores d)"

text \<open>
  \<^verbatim>\<open>SumulaSerializer\<close>: fields id, active, referee, name, players_score. Modelled from
  the spec: \<^verbatim>\<open>SumulaClassificatoriaSerializer\<close> and \<^verbatim>\<open>SumulaImortalSerializer\<close>, absent
  from the serializers at hand, which give the staff view of a sumula in that same
  shape.
\<close>

definition SumulaSerializer :: "db \<Rightarrow> variant \<Rightarrow> sumula \<Rightarrow> json" where
  "SumulaSerializer d v s =
     JObj [(''id'', JInt (sumula_id s)), (''active'', JBool (active s)),
           (''referee'', JList (map (serialize_referee d) (referee s))),
           (''name'', JStr (name s)),
           (''players_score'', JList (map (PlayerScoreSerializerForSumula d) (scores_of d v s)))]"

text \<open>
  Modelled from the spec: \<^verbatim>\<open>SumulaClassificatoriaForPlayerSerializer\<close> and
  \<^verbatim>\<open>SumulaImortalForPlayerSerializer\<close>, absent from the serializers at hand; the
  player-facing view exposes only identity, name, active flag, referees and roster
  membership, and omits all score and point fields.
\<close>

definition roster_entry :: "db \<Rightarrow> player_score \<Rightarrow> json" where
  "roster_entry d ps =
     JObj [(''id'', JInt (score_id ps)),
           (''player'', (case find_player d (score_player ps) of
                           None \<Rightarrow> JNull
                         | Some p \<Rightarrow>
                             JObj [(''id'', JInt (player_id p)),
                                   (''user'', serialize_user_of d (player_user p))]))]"

definition SumulaForPlayerSerializer :: "db \<Rightarrow> variant \<Rightarrow> sumula \<Rightarrow> json" where
  "SumulaForPlayerSerializer d v s =
     JObj [(''id'', JInt (sumula_id s)), (''active'', JBool (active s)),
           (''referee'', JList (map (serialize_referee d) (referee s))),
           (''name'', JStr (name s)),
           (''players_score'', JList (map (roster_entry d) (scores_of d v s)))]"

text \<open>Every field name that occurs in a JSON value, at any depth.\<close>

fun json_keys :: "json \<Rightarrow> string list" where
  "json_keys (JList xs) = concat (map json_keys xs)"
| "json_keys (JObj kvs) = map fst kvs @ concat (map (\<lambda>kv. json_keys (snd kv)) kvs)"
| "json_keys _ = []"

section \<open>Views\<close>

text \<open>
  Each handler takes the database and returns the response with the database as the
  handler leaves it. The views run no transaction of their own: what a handler has
  written when it returns, or when an exception leaves it, stays written.
\<close>

text \<open>
  \<^verbatim>\<open>GetSumulasView.get\<close>, \<^verbatim>\<open>ActiveSumulaView.get\<close> and \<^verbatim>\<open>FinishedSumulaView.get\<close>:
  the three differ in the \<open>active\<close> argument of \<^verbatim>\<open>get_sumulas\<close> only.
\<close>

definition list_sumulas :: "bool option \<Rightarrow> framework \<Rightarrow> request \<Rightarrow> db \<Rightarrow> response \<times> db" where
  "list_sumulas act fw req d =
     (case get_object d req of
        Inl e \<Rightarrow> (handle_400_error e, d)
      | Inr ev \<Rightarrow>
          (case check_object_permissions fw req ev of
             Some r \<Rightarrow> (r, d)
           | None \<Rightarrow>
               (case get_sumulas d ev act of
                  (sumula_imortal', sumula_classificatoria') \<Rightarrow>
                    (Response 200
                       (JObj [(''sumula_classificatoria'',
                                 JList (map (SumulaSerializer d Classificatoria) sumula_classificatoria')),
                              (''sumula_imortal'',
                                 JList (map (SumulaSerializer d Imortal) sumula_imortal'))]), d))))"

definition GetSumulasView_get :: "framework \<Rightarrow> request \<Rightarrow> db \<Rightarrow> response \<times> db" where
  "GetSumulasView_get = list_sumulas None"

definition ActiveSumulaView_get :: "framework \<Rightarrow> request \<Rightarrow> db \<Rightarrow> response \<times> db" where
  "ActiveSumulaView_get = list_sumulas (Some True)"

definition FinishedSumulaView_get :: "framework \<Rightarrow> request \<Rightarrow> db \<Rightarrow> response \<times> db" where
  "FinishedSumulaView_get = list_sumulas (Some False)"

text \<open>\<^verbatim>\<open>Model.objects.create(event=event, name=name)\<close>: a new sumula is active and has no referee.\<close>

definition new_sumula :: "sumula list \<Rightarrow> event \<Rightarrow> string \<Rightarrow> sumula" where
  "new_sumula tbl ev nm =
     \<lparr>sumula_id = next_id (map sumula_id tbl), sumula_event = event_id ev, name = nm,
      active = True, referee = []\<rparr>"

text \<open>The sumula object as the serializer reads it: its referee set comes from the database.\<close>

definition with_referees_of :: "db \<Rightarrow> variant \<Rightarrow> sumula \<Rightarrow> sumula" where
  "with_referees_of d v s =
     (case find_sumula (sumula_table v d) (sumula_id s) of
        None \<Rightarrow> s
      | Some r \<Rightarrow> s\<lparr>referee := referee r\<rparr>)"

text \<open>
  \<^verbatim>\<open>SumulaClassificatoriaView.post\<close> and \<^verbatim>\<open>SumulaImortalView.post\<close>: the two bodies
  are the same but for the model class. The row of the sumula is created before
  \<^verbatim>\<open>create_players_score\<close> is tried, and the handler of its exception returns the
  400 without touching that row. \<^verbatim>\<open>add_referees\<close> is called outside any \<^verbatim>\<open>try\<close>.
\<close>

definition sumula_post :: "variant \<Rightarrow> framework \<Rightarrow> request \<Rightarrow> db \<Rightarrow> response \<times> db" where
  "sumula_post v fw req d =
     (if \<not> validate_request_data_dict (req_data req) \<or> \<not> has_key (req_data req) ''name''
         \<or> \<not> validate_players fw d v req \<or> \<not> validate_referees fw d req
      then (handle_400_error dados_invalidos, d)
      else
        (case get_object d req of
           Inl e \<Rightarrow> (handle_400_error e, d)
         | Inr ev \<Rightarrow>
             (case check_object_permissions fw req ev of
                Some r \<Rightarrow> (r, d)
              | None \<Rightarrow>
                  (case (get_key (req_data req) ''name'', get_key (req_data req) ''players'') of
                     (Some jn, Some (JList ps)) \<Rightarrow>
                       (case to_text fw jn of
                          None \<Rightarrow> (ServerError, d)
                        | Some nm \<Rightarrow>
                            (let s = new_sumula (sumula_table v d) ev nm;
                                 d1 = set_sumula_table v (sumula_table v d @ [s]) d
                             in case create_players_score fw v ps s ev d1 of
                                  Inl e \<Rightarrow> (handle_400_error e, d1)
                                | Inr d2 \<Rightarrow>
                                    (case get_key (req_data req) ''referees'' of
                                       Some (JList rs) \<Rightarrow>
                                         (case add_referees fw v s ev rs d2 of
                                            Inl e \<Rightarrow> (ServerError, d2)
                                          | Inr d3 \<Rightarrow>
                                              (Response 201
                                                 (SumulaSerializer d3 v (with_referees_of d3 v s)), d3))
                                     | _ \<Rightarrow> (ServerError, d2))))
                   | _ \<Rightarrow> (ServerError, d)))))"

definition SumulaClassificatoriaView_post :: "framework \<Rightarrow> request \<Rightarrow> db \<Rightarrow> response \<times> db" where
  "SumulaClassificatoriaView_post = sumula_post Classificatoria"

definition SumulaImortalView_post :: "framework \<Rightarrow> request \<Rightarrow> db \<Rightarrow> response \<times> db" where
  "SumulaImortalView_post = sumula_post Imortal"

text \<open>
  The check of the two \<^verbatim>\<open>put\<close> handlers on a user who is not the admin of the event
  (\<^verbatim>\<open>is_admin = request.user.email == event.admin_email\<close> and the block under
  \<^verbatim>\<open>if not is_admin\<close>): \<open>Some\<close> is the response the handler returns there, \<open>None\<close>
  lets it go on.
\<close>

definition closed_sumula_check :: "db \<Rightarrow> request \<Rightarrow> sumula \<Rightarrow> event \<Rightarrow> response option" where
  "closed_sumula_check d req s ev =
     (if email (req_user req) = admin_email ev then None
      else
        (case validate_if_staff_is_sumula_referee d req s ev of
           Inl e \<Rightarrow> Some (handle_400_error e)
         | Inr st \<Rightarrow>
             if \<not> active s \<and> \<not> is_manager st
             then Some (handle_400_error SUMULA_IS_CLOSED_ERROR_MESSAGE)
             else None))"

text \<open>
  The two \<^verbatim>\<open>put\<close> handlers from \<^verbatim>\<open>sumula_id = request.data['id']\<close> on, where their
  bodies are the same but for the model class.
\<close>

definition put_from_id :: "variant \<Rightarrow> framework \<Rightarrow> request \<Rightarrow> db \<Rightarrow> response \<times> db" where
  "put_from_id v fw req d =
     (case get_key (req_data req) ''id'' of
        None \<Rightarrow> (ServerError, d)
      | Some sumula_id' \<Rightarrow>
          if \<not> truthy sumula_id' then (handle_400_error SUMULA_ID_NOT_PROVIDED_ERROR_MESSAGE, d)
          else
            (case to_int fw sumula_id' of
               None \<Rightarrow> (ServerError, d)
             | Some i \<Rightarrow>
                 (case find_sumula (sumula_table v d) i of
                    None \<Rightarrow> (handle_400_error SUMULA_NOT_FOUND_ERROR_MESSAGE, d)
                  | Some s \<Rightarrow>
                      (case get_object d req of
                         Inl e \<Rightarrow> (handle_400_error e, d)
                       | Inr ev \<Rightarrow>
                           (case check_object_permissions fw req ev of
                              Some r \<Rightarrow> (r, d)
                            | None \<Rightarrow>
                                (case closed_sumula_check d req s ev of
                                   Some r \<Rightarrow> (r, d)
                                 | None \<Rightarrow>
                                     (case update_sumula fw v req s ev d of
                                        Inl e \<Rightarrow> (handle_400_error e, d)
                                      | Inr d' \<Rightarrow> (Response 200 JNull, d'))))))))"

text \<open>\<^verbatim>\<open>SumulaClassificatoriaView.put\<close>.\<close>

definition SumulaClassificatoriaView_put :: "framework \<Rightarrow> request \<Rightarrow> db \<Rightarrow> response \<times> db" where
  "SumulaClassificatoriaView_put fw req d =
     (if \<not> validate_request_data_dict (req_data req)
         \<or> \<not> list_all (has_key (req_data req)) [''id'', ''name'', ''description'']
      then (handle_400_error dados_invalidos, d)
      else if \<not> validate_players_score fw d Classificatoria (req_data req)
      then (handle_400_error dados_Invalidos_140, d)
      else put_from_id Classificatoria fw req d)"

text \<open>\<^verbatim>\<open>SumulaImortalView.put\<close>: it does not call \<^verbatim>\<open>validate_players_score\<close>.\<close>

definition SumulaImortalView_put :: "framework \<Rightarrow> request \<Rightarrow> db \<Rightarrow> response \<times> db" where
  "SumulaImortalView_put fw req d =
     (if \<not> validate_request_data_dict (req_data req)
         \<or> \<not> list_all (has_key (req_data req)) [''id'', ''name'', ''description'']
      then (handle_400_error dados_invalidos, d)
      else put_from_id Imortal fw req d)"

definition no_associated_sumula :: string where
  "no_associated_sumula =
     ''Jogador n'' @ [CHR 0xE3] @ ''o possui nenhuma sumula associada!''"

text \<open>
  \<^verbatim>\<open>PlayerScore.objects.filter(player=player, sumula_<v>__active=True)\<close> followed by
  \<^verbatim>\<open>[player_score.sumula_<v> for player_score in player_scores]\<close>: one sumula for each
  PlayerScore of the player whose sumula of the family \<open>v\<close> is active.
\<close>

definition active_sumulas_of :: "db \<Rightarrow> variant \<Rightarrow> player \<Rightarrow> sumula list" where
  "active_sumulas_of d v p =
     List.map_filter
       (\<lambda>ps. if score_player ps = player_id p
             then (case score_sumula v ps of
                     None \<Rightarrow> None
                   | Some i \<Rightarrow>
                       (case find_sumula (sumula_table v d) i of
                          None \<Rightarrow> None
                        | Some s \<Rightarrow> if active s then Some s else None))
             else None)
       (player_scores d)"

text \<open>
  \<^verbatim>\<open>GetSumulaForPlayer.get\<close>, behind \<^verbatim>\<open>GetSumulaForPlayerPermission\<close>. The two
  branches on \<^verbatim>\<open>player.is_imortal\<close> are the same but for the family.
\<close>

definition GetSumulaForPlayer_get :: "framework \<Rightarrow> request \<Rightarrow> db \<Rightarrow> response \<times> db" where
  "GetSumulaForPlayer_get fw req d =
     (case get_object d req of
        Inl e \<Rightarrow> (handle_400_error e, d)
      | Inr ev \<Rightarrow>
          if \<not> player_has_object_permission fw req ev then (permission_denied, d)
          else
            (case find_player_of d (req_user req) ev of
               None \<Rightarrow> (handle_400_error player_not_found, d)
             | Some p \<Rightarrow>
                 (let v = (if is_imortal p then Imortal else Classificatoria);
                      sumulas = active_sumulas_of d v p
                  in if sumulas = [] then (handle_400_error no_associated_sumula, d)
                     else (Response 200 (JList (map (SumulaForPlayerSerializer d v) sumulas)), d))))"

definition already_has_referee :: string where
  "already_has_referee =
     ''S'' @ [CHR 0xFA] @ ''mula j'' @ [CHR 0xE1] @ '' possui um ou mais '' @ [CHR 0xE1] @ ''rbitros!''"

text \<open>\<^verbatim>\<open>AddRefereeToSumulaView.put\<close>.\<close>

definition AddRefereeToSumulaView_put :: "framework \<Rightarrow> request \<Rightarrow> db \<Rightarrow> response \<times> db" where
  "AddRefereeToSumulaView_put fw req d =
     (if \<not> validate_request_data_dict (req_data req) \<or> \<not> has_key (req_data req) ''sumula_id''
         \<or> \<not> has_key (req_data req) ''is_imortal''
      then (handle_400_error dados_invalidos, d)
      else
        (case (get_key (req_data req) ''sumula_id'', get_key (req_data req) ''is_imortal'') of
           (Some sumula_id', Some is_imortal') \<Rightarrow>
             if \<not> truthy sumula_id' then (handle_400_error SUMULA_ID_NOT_PROVIDED_ERROR_MESSAGE, d)
             else
               (case get_object d req of
                  Inl e \<Rightarrow> (handle_400_error e, d)
                | Inr ev \<Rightarrow>
                    (case check_object_permissions fw req ev of
                       Some r \<Rightarrow> (r, d)
                     | None \<Rightarrow>
                         (case find_staff_of d (req_user req) ev of
                            None \<Rightarrow> (handle_400_error not_a_monitor, d)
                          | Some st \<Rightarrow>
                              (let v = (if truthy is_imortal' then Imortal else Classificatoria)
                               in case to_int fw sumula_id' of
                                    None \<Rightarrow> (ServerError, d)
                                  | Some i \<Rightarrow>
                                      (case find_sumula (sumula_table v d) i of
                                         None \<Rightarrow> (handle_400_error SUMULA_NOT_FOUND_ERROR_MESSAGE, d)
                                       | Some s \<Rightarrow>
                                           if length (referee s) > 0
                                           then (handle_400_error already_has_referee, d)
                                           else
                                             (Response 200 JNull,
                                              set_sumula_table v
                                                (update_rows (\<lambda>r. sumula_id r = sumula_id s)
                                                   (referee_add (staff_id st)) (sumula_table v d)) d))))))
         | _ \<Rightarrow> (ServerError, d)))"

section \<open>Operations of the system\<close>

datatype view =
    GetSumulasView
  | SumulaClassificatoriaView
  | SumulaImortalView
  | ActiveSumulaView
  | FinishedSumulaView
  | GetSumulaForPlayer
  | AddRefereeToSumulaView

definition method_not_allowed :: response where
  "method_not_allowed = Response 405 (JObj [(''detail'', JStr ''Method not allowed.'')])"

text \<open>
  The framework calls the handler of the view named after the method of the request. A
  view with a \<^verbatim>\<open>get\<close> handler answers HEAD with it; OPTIONS is answered by the
  framework itself; any other method the view has no handler for is answered 405.
\<close>

definition no_handler :: "framework \<Rightarrow> request \<Rightarrow> db \<Rightarrow> response \<times> db" where
  "no_handler fw req d =
     (if http_method req = ''OPTIONS'' then (Response 200 (options_body fw), d)
      else (method_not_allowed, d))"

fun dispatch :: "framework \<Rightarrow> view \<Rightarrow> request \<Rightarrow> db \<Rightarrow> response \<times> db" where
  "dispatch fw GetSumulasView req d =
     (if http_method req = ''GET'' \<or> http_method req = ''HEAD'' then GetSumulasView_get fw req d
      else no_handler fw req d)"
| "dispatch fw SumulaClassificatoriaView req d =
     (if http_method req = ''POST'' then SumulaClassificatoriaView_post fw req d
      else if http_method req = ''PUT'' then SumulaClassificatoriaView_put fw req d
      else no_handler fw req d)"
| "dispatch fw SumulaImortalView req d =
     (if http_method req = ''POST'' then SumulaImortalView_post fw req d
      else if http_method req = ''PUT'' then SumulaImortalView_put fw req d
      else no_handler fw req d)"
| "dispatch fw ActiveSumulaView req d =
     (if http_method req = ''GET'' \<or> http_method req = ''HEAD'' then ActiveSumulaView_get fw req d
      else no_handler fw req d)"
| "dispatch fw FinishedSumulaView req d =
     (if http_method req = ''GET'' \<or> http_method req = ''HEAD'' then FinishedSumulaView_get fw req d
      else no_handler fw req d)"
| "dispatch fw GetSumulaForPlayer req d =
     (if http_method req = ''GET'' \<or> http_method req = ''HEAD'' then GetSumulaForPlayer_get fw req d
      else no_handler fw req d)"
| "dispatch fw AddRefereeToSumulaView req d =
     (if http_method req = ''PUT'' then AddRefereeToSumulaView_put fw req d
      else no_handler fw req d)"

text \<open>Update/Close on the family \<open>v\<close>: the \<^verbatim>\<open>put\<close> of its view.\<close>

fun sumula_put :: "variant \<Rightarrow> framework \<Rightarrow> request \<Rightarrow> db \<Rightarrow> response \<times> db" where
  "sumula_put Classificatoria fw req d = SumulaClassificatoriaView_put fw req d"
| "sumula_put Imortal fw req d = SumulaImortalView_put fw req d"

text \<open>The other family of sumulas.\<close>

fun other :: "variant \<Rightarrow> variant" where
  "other Classificatoria = Imortal"
| "other Imortal = Classificatoria"

text \<open>
  The sumula with key \<open>i\<close> is in the table and closed: some row has the key, and every
  row with the key has \<open>active = False\<close>.
\<close>

definition closed_at :: "int \<Rightarrow> sumula list \<Rightarrow> bool" where
  "closed_at i tbl \<longleftrightarrow>
     i \<in> sumula_id ` set tbl \<and> (\<forall>r \<in> set tbl. sumula_id r = i \<longrightarrow> \<not> active r)"

text \<open>Every sumula that is closed in \<open>d\<close> is closed in \<open>d'\<close>, in both families.\<close>

definition closed_stay_closed :: "db \<Rightarrow> db \<Rightarrow> bool" where
  "closed_stay_closed d d' \<longleftrightarrow>
     (\<forall>v i. closed_at i (sumula_table v d) \<longrightarrow> closed_at i (sumula_table v d'))"

text \<open>A sequence of requests, each to a view, served one after the other.\<close>

fun run_requests :: "framework \<Rightarrow> (view \<times> request) list \<Rightarrow> db \<Rightarrow> db" where
  "run_requests fw [] d = d"
| "run_requests fw ((view, req) # rest) d = run_requests fw rest (snd (dispatch fw view req d))"

text \<open>
  Score-sum consistency of the player with key \<open>q\<close>: the \<open>total_score\<close> of the player
  equals the defined aggregation of the player's PlayerScore points.
\<close>

definition total_score_consistent :: "db \<Rightarrow> int \<Rightarrow> bool" where
  "total_score_consistent d q \<longleftrightarrow>
     (\<forall>p \<in> set (players d). player_id p = q \<longrightarrow>
        total_score p = aggregate_points (player_scores d) (player_id p) (player_event p))"

text \<open>Every PlayerScore row with the key of \<open>ps\<close> belongs to the player of \<open>ps\<close>.\<close>

definition owner_ok :: "db \<Rightarrow> player_score \<Rightarrow> bool" where
  "owner_ok d ps \<longleftrightarrow>
     (\<forall>r \<in> set (player_scores d). score_id r = score_id ps \<longrightarrow> score_player r = score_player ps)"

section \<open>A small event\<close>

text \<open>
  A database on which the handlers are run on concrete requests: one event with its
  admin, a monitor, a manager, three players (the third imortal), an open and a closed
  sumula classificatoria and an open sumula imortal.
\<close>

definition std_int :: "json \<Rightarrow> int option" where
  "std_int j = (case j of JInt n \<Rightarrow> Some n | JBool b \<Rightarrow> Some (if b then 1 else 0) | _ \<Rightarrow> None)"

definition std_text :: "json \<Rightarrow> string option" where
  "std_text j = (case j of JStr t \<Rightarrow> Some t | _ \<Rightarrow> None)"

definition fw_grant :: framework where
  "fw_grant = \<lparr>has_perm = (\<lambda>u p ev. True), to_int = std_int, to_text = std_text,
                options_body = JNull\<rparr>"

definition fw_deny :: framework where
  "fw_deny = \<lparr>has_perm = (\<lambda>u p ev. False), to_int = std_int, to_text = std_text,
                options_body = JNull\<rparr>"

definition u_admin :: user where
  "u_admin = \<lparr>user_id = 1, email = ''admin@unb.br'', first_name = ''Ana'', last_name = ''A''\<rparr>"

definition u_monitor :: user where
  "u_monitor = \<lparr>user_id = 2, email = ''monitor@unb.br'', first_name = ''Beto'', last_name = ''B''\<rparr>"

definition u_manager :: user where
  "u_manager = \<lparr>user_id = 3, email = ''gerente@unb.br'', first_name = ''Caio'', last_name = ''C''\<rparr>"

definition u_player1 :: user where
  "u_player1 = \<lparr>user_id = 4, email = ''p1@unb.br'', first_name = ''Duda'', last_name = ''D''\<rparr>"

definition u_player2 :: user where
  "u_player2 = \<lparr>user_id = 5, email = ''p2@unb.br'', first_name = ''Enzo'', last_name = ''E''\<rparr>"

definition u_player3 :: user where
  "u_player3 = \<lparr>user_id = 6, email = ''p3@unb.br'', first_name = ''Fabi'', last_name = ''F''\<rparr>"

definition u_outsider :: user where
  "u_outsider = \<lparr>user_id = 7, email = ''fora@unb.br'', first_name = ''Gil'', last_name = ''G''\<rparr>"

definition ev1 :: event where
  "ev1 = \<lparr>event_id = 1, event_name = ''Evento 1'', admin_email = ''admin@unb.br''\<rparr>"

definition st_monitor :: staff where
  "st_monitor = \<lparr>staff_id = 1, staff_user = 2, staff_event = 1, is_manager = False\<rparr>"

definition st_manager :: staff where
  "st_manager = \<lparr>staff_id = 2, staff_user = 3, staff_event = 1, is_manager = True\<rparr>"

definition pl1 :: player where
  "pl1 = \<lparr>player_id = 1, player_user = 4, player_event = 1, total_score = 0,
          registration_email = ''p1@unb.br'', is_imortal = False\<rparr>"

definition pl2 :: player where
  "pl2 = \<lparr>player_id = 2, player_user = 5, player_event = 1, total_score = 0,
          registration_email = ''p2@unb.br'', is_imortal = False\<rparr>"

definition pl3 :: player where
  "pl3 = \<lparr>player_id = 3, player_user = 6, player_event = 1, total_score = 0,
          registration_email = ''p3@unb.br'', is_imortal = True\<rparr>"

definition sc_open :: sumula where
  "sc_open = \<lparr>sumula_id = 1, sumula_event = 1, name = ''chave 01'', active = True, referee = []\<rparr>"

definition sc_closed :: sumula where
  "sc_closed = \<lparr>sumula_id = 2, sumula_event = 1, name = ''chave 02'', active = False, referee = [1]\<rparr>"

definition si_open :: sumula where
  "si_open = \<lparr>sumula_id = 1, sumula_event = 1, name = ''imortais 01'', active = True, referee = []\<rparr>"

definition ps1 :: player_score where
  "ps1 = \<lparr>score_id = 1, score_player = 1, score_event = 1, sumula_classificatoria = Some 1,
          sumula_imortal = None, points = 0\<rparr>"

definition ps2 :: player_score where
  "ps2 = \<lparr>score_id = 2, score_player = 2, score_event = 1, sumula_classificatoria = Some 1,
          sumula_imortal = None, points = 0\<rparr>"

definition ps3 :: player_score where
  "ps3 = \<lparr>score_id = 3, score_player = 1, score_event = 1, sumula_classificatoria = Some 2,
          sumula_imortal = None, points = 7\<rparr>"

definition ps4 :: player_score where
  "ps4 = \<lparr>score_id = 4, score_player = 3, score_event = 1, sumula_classificatoria = None,
          sumula_imortal = Some 1, points = 0\<rparr>"

definition db1 :: db where
  "db1 = \<lparr>users = [u_admin, u_monitor, u_manager, u_player1, u_player2, u_player3, u_outsider],
          events = [ev1], staffs = [st_monitor, st_manager], players = [pl1, pl2, pl3],
          sumulas_classificatoria = [sc_open, sc_closed], sumulas_imortal = [si_open],
          player_scores = [ps1, ps2, ps3, ps4]\<rparr>"

text \<open>Payloads of Update/Close, Create and AddReferee for that event.\<close>

definition score_entry :: "int \<times> int \<Rightarrow> json" where
  "score_entry e = JObj [(''id'', JInt (fst e)), (''points'', JInt (snd e))]"

definition close_payload :: "int \<Rightarrow> (int \<times> int) list \<Rightarrow> json" where
  "close_payload sid es =
     JObj [(''id'', JInt sid), (''name'', JStr ''final 01''), (''description'', JStr ''-''),
           (''referee'', JList [JObj [(''id'', JInt 1)], JObj [(''id'', JInt 2)]]),
           (''players_score'', JList (map score_entry es))]"

definition create_payload :: "int \<Rightarrow> int \<Rightarrow> json" where
  "create_payload p q =
     JObj [(''name'', JStr ''chave 03''),
           (''players'', JList [JObj [(''id'', JInt p)], JObj [(''id'', JInt q)]]),
           (''referees'', JList [JObj [(''id'', JInt 1)]])]"

definition referee_payload :: "int \<Rightarrow> bool \<Rightarrow> json" where
  "referee_payload sid im = JObj [(''sumula_id'', JInt sid), (''is_imortal'', JBool im)]"

text \<open>An Update/Close payload for the open sumula whose first player-score entry has no \<open>id\<close>.\<close>

definition close_payload_missing_id :: json where
  "close_payload_missing_id =
     JObj [(''id'', JInt 1), (''name'', JStr ''final 01''), (''description'', JStr ''-''),
           (''referee'', JList [JObj [(''id'', JInt 1)], JObj [(''id'', JInt 2)]]),
           (''players_score'',
              JList [JObj [(''points'', JInt 10)], JObj [(''id'', JInt 2), (''points'', JInt 15)]])]"

definition mk_request :: "string \<Rightarrow> user \<Rightarrow> json \<Rightarrow> request" where
  "mk_request m u data = \<lparr>http_method = m, req_user = u, query_event_id = Some 1, req_data = data\<rparr>"

section \<open>Basic facts\<close>

lemmas fixtures = fw_grant_def fw_deny_def u_admin_def u_monitor_def u_manager_def u_player1_def
  u_player2_def u_player3_def u_outsider_def ev1_def st_monitor_def st_manager_def pl1_def pl2_def
  pl3_def sc_open_def sc_closed_def si_open_def ps1_def ps2_def ps3_def ps4_def db1_def
  mk_request_def std_int_def std_text_def close_payload_def create_payload_def referee_payload_def
  score_entry_def close_payload_missing_id_def

lemmas lookups = find_sumula_def find_event_def find_user_def find_player_def find_staff_of_def
  find_player_of_def get_object_def

lemma has_key_get_key: "has_key data k \<longleftrightarrow> get_key data k \<noteq> None"
  by (cases data) simp_all

lemma get_key_dict: "get_key data k = Some j \<Longrightarrow> validate_request_data_dict data"
  by (cases data) simp_all

lemma sumula_put_unfold:
  assumes "validate_request_data_dict (req_data req)"
    and "list_all (has_key (req_data req)) [''id'', ''name'', ''description'']"
    and "v = Classificatoria \<longrightarrow> validate_players_score fw d v (req_data req)"
    and "get_key (req_data req) ''id'' = Some j" and "truthy j" and "to_int fw j = Some i"
    and "find_sumula (sumula_table v d) i = Some s"
    and "get_object d req = Inr ev"
  shows "sumula_put v fw req d =
           (if \<not> has_object_permission fw req ev then (permission_denied, d)
            else case closed_sumula_check d req s ev of
                   Some r \<Rightarrow> (r, d)
                 | None \<Rightarrow>
                     (case update_sumula fw v req s ev d of
                        Inl e \<Rightarrow> (handle_400_error e, d)
                      | Inr d' \<Rightarrow> (Response 200 JNull, d')))"
  using assms
  by (cases v)
     (auto simp add: SumulaClassificatoriaView_put_def SumulaImortalView_put_def put_from_id_def
        check_object_permissions_def)

lemma find_update_rows:
  assumes "\<And>r. P (f r) = P r"
  shows "find P tbl = Some s \<Longrightarrow> find P (update_rows P f tbl) = Some (f s)"
  by (induction tbl) (simp_all add: update_rows_def assms split: if_splits)

lemma filter_update_rows:
  assumes "\<And>r. P (f r) = P r"
  shows "filter (\<lambda>r. \<not> P r) (update_rows P f tbl) = filter (\<lambda>r. \<not> P r) tbl"
  by (induction tbl) (simp_all add: update_rows_def assms)
lemma find_sumula_id: "find_sumula tbl i = Some s \<Longrightarrow> sumula_id s = i"
  by (auto simp: find_sumula_def find_Some_iff)

lemma sumula_table_set:
  "sumula_table v (set_sumula_table v tbl d) = tbl"
  "sumula_table (other v) (set_sumula_table v tbl d) = sumula_table (other v) d"
  "staffs (set_sumula_table v tbl d) = staffs d"
  "players (set_sumula_table v tbl d) = players d"
  "player_scores (set_sumula_table v tbl d) = player_scores d"
  "events (set_sumula_table v tbl d) = events d"
  "users (set_sumula_table v tbl d) = users d"
  by (cases v; simp)+

lemma add_referee_run:
  assumes k1: "get_key (req_data req) ''sumula_id'' = Some j"
    and k2: "get_key (req_data req) ''is_imortal'' = Some b"
    and tj: "truthy j" and ti: "to_int fw j = Some i" and go: "get_object d req = Inr ev"
    and perm: "has_object_permission fw req ev"
    and v: "v = (if truthy b then Imortal else Classificatoria)"
    and fnd: "find_sumula (sumula_table v d) i = Some s"
    and stf: "find_staff_of d (req_user req) ev = Some st"
  shows "AddRefereeToSumulaView_put fw req d =
      (if length (referee s) > 0 then (handle_400_error already_has_referee, d)
       else (Response 200 JNull,
             set_sumula_table v (update_rows (\<lambda>r. sumula_id r = i)
                 (referee_add (staff_id st)) (sumula_table v d)) d))"
proof -
  have dict: "validate_request_data_dict (req_data req)"
    and keys: "has_key (req_data req) ''sumula_id''" "has_key (req_data req) ''is_imortal''"
    using k1 k2 by (cases "req_data req"; simp)+
  show ?thesis
    unfolding AddRefereeToSumulaView_put_def
    by (simp add: dict keys k1 k2 tj ti go perm check_object_permissions_def stf v[symmetric] fnd
        find_sumula_id[OF fnd] del: sumula_table.simps set_sumula_table.simps)
qed

lemma add_referee_effect:
  assumes fnd: "find_sumula (sumula_table v d) i = Some s" and e: "referee s = []"
    and d': "d' = set_sumula_table v (update_rows (\<lambda>r. sumula_id r = i)
                 (referee_add k) (sumula_table v d)) d"
  shows "find_sumula (sumula_table v d') i = Some (s\<lparr>referee := [k]\<rparr>)"
    and "filter (\<lambda>r. sumula_id r \<noteq> i) (sumula_table v d')
           = filter (\<lambda>r. sumula_id r \<noteq> i) (sumula_table v d)"
    and "sumula_table (other v) d' = sumula_table (other v) d"
proof -
  have fs: "find (\<lambda>r. sumula_id r = i) (sumula_table v d) = Some s"
    using fnd by (simp only: find_sumula_def)
  have keep: "\<And>r. (sumula_id (referee_add k r) = i) = (sumula_id r = i)"
    by (simp add: referee_add_def)
  have r: "referee_add k s = s\<lparr>referee := [k]\<rparr>"
    using e by (simp add: referee_add_def)
  show "find_sumula (sumula_table v d') i = Some (s\<lparr>referee := [k]\<rparr>)"
    unfolding find_sumula_def d' sumula_table_set r[symmetric]
    by (rule find_update_rows [of "\<lambda>r. sumula_id r = i" "referee_add k" "sumula_table v d" s, OF keep fs])
  show "filter (\<lambda>r. sumula_id r \<noteq> i) (sumula_table v d')
           = filter (\<lambda>r. sumula_id r \<noteq> i) (sumula_table v d)"
    unfolding d' sumula_table_set
    by (rule filter_update_rows [of "\<lambda>r. sumula_id r = i" "referee_add k" "sumula_table v d", OF keep])
  show "sumula_table (other v) d' = sumula_table (other v) d"
    unfolding d' by (simp only: sumula_table_set)
qed

lemma add_referee_nostaff:
  assumes n: "case get_object d req of Inl e \<Rightarrow> True
        | Inr ev \<Rightarrow> find_staff_of d (req_user req) ev = None"
  shows "\<exists>r. AddRefereeToSumulaView_put fw req d = (r, d) \<and> (\<forall>body. r \<noteq> Response 200 body)"
proof (cases "get_object d req")
  case (Inl e)
  then show ?thesis
    by (simp add: AddRefereeToSumulaView_put_def handle_400_error_def split: option.split)
next
  case (Inr ev)
  with n have "find_staff_of d (req_user req) ev = None" by simp
  with Inr show ?thesis
    by (simp add: AddRefereeToSumulaView_put_def check_object_permissions_def
        handle_400_error_def permission_denied_def split: option.split)
qed

lemma closed_sumula_check_None:
  "closed_sumula_check d req s ev = None \<longleftrightarrow>
     email (req_user req) = admin_email ev
     \<or> (\<exists>st. find_staff_of d (req_user req) ev = Some st \<and> (active s \<or> is_manager st))"
  by (auto simp: closed_sumula_check_def validate_if_staff_is_sumula_referee_def
      split: option.splits)

lemma put_from_id_result:
  "(\<exists>r. put_from_id v fw req d = (r, d) \<and> (\<forall>b. r \<noteq> Response 200 b))
   \<or> (\<exists>j i s ev d'. get_key (req_data req) ''id'' = Some j \<and> truthy j \<and> to_int fw j = Some i
          \<and> find_sumula (sumula_table v d) i = Some s \<and> get_object d req = Inr ev
          \<and> has_object_permission fw req ev \<and> closed_sumula_check d req s ev = None
          \<and> update_sumula fw v req s ev d = Inr d'
          \<and> put_from_id v fw req d = (Response 200 JNull, d'))"
proof (cases "get_key (req_data req) ''id''")
  case None
  then show ?thesis by (simp add: put_from_id_def)
next
  case (Some j)
  note j = this
  show ?thesis
  proof (cases "truthy j")
    case False
    with j show ?thesis by (simp add: put_from_id_def handle_400_error_def)
  next
    case True
    note tj = this
    show ?thesis
    proof (cases "to_int fw j")
      case None
      with j tj show ?thesis by (simp add: put_from_id_def)
    next
      case (Some i)
      note i = this
      show ?thesis
      proof (cases "find_sumula (sumula_table v d) i")
        case None
        with j tj i show ?thesis by (simp add: put_from_id_def handle_400_error_def)
      next
        case (Some s)
        note s = this
        show ?thesis
        proof (cases "get_object d req")
          case (Inl e)
          with j tj i s show ?thesis by (simp add: put_from_id_def handle_400_error_def)
        next
          case (Inr ev)
          note ev = this
          show ?thesis
          proof (cases "has_object_permission fw req ev")
            case False
            with j tj i s ev show ?thesis
              by (simp add: put_from_id_def check_object_permissions_def permission_denied_def)
          next
            case True
            note perm = this
            show ?thesis
            proof (cases "closed_sumula_check d req s ev")
              case (Some r)
              then have "\<forall>b. r \<noteq> Response 200 b"
                by (auto simp: closed_sumula_check_def handle_400_error_def
                    split: if_splits sum.splits)
              with Some j tj i s ev perm show ?thesis
                by (simp add: put_from_id_def check_object_permissions_def)
            next
              case None
              note chk = this
              show ?thesis
              proof (cases "update_sumula fw v req s ev d")
                case (Inl e)
                with j tj i s ev perm chk show ?thesis
                  by (simp add: put_from_id_def check_object_permissions_def handle_400_error_def)
              next
                case (Inr d')
                with j tj i s ev perm chk show ?thesis
                  by (simp add: put_from_id_def check_object_permissions_def)
              qed
            qed
          qed
        qed
      qed
    qed
  qed
qed

lemma sumula_put_result:
  "(\<exists>r. sumula_put v fw req d = (r, d) \<and> (\<forall>b. r \<noteq> Response 200 b))
   \<or> (\<exists>j i s ev d'. validate_request_data_dict (req_data req)
          \<and> list_all (has_key (req_data req)) [''id'', ''name'', ''description'']
          \<and> (v = Classificatoria \<longrightarrow> validate_players_score fw d v (req_data req))
          \<and> get_key (req_data req) ''id'' = Some j \<and> truthy j \<and> to_int fw j = Some i
          \<and> find_sumula (sumula_table v d) i = Some s \<and> get_object d req = Inr ev
          \<and> has_object_permission fw req ev \<and> closed_sumula_check d req s ev = None
          \<and> update_sumula fw v req s ev d = Inr d'
          \<and> sumula_put v fw req d = (Response 200 JNull, d'))"
proof (cases "validate_request_data_dict (req_data req)
      \<and> list_all (has_key (req_data req)) [''id'', ''name'', ''description'']
      \<and> (v = Classificatoria \<longrightarrow> validate_players_score fw d v (req_data req))")
  case False
  then show ?thesis
    by (cases v)
       (auto simp: SumulaClassificatoriaView_put_def SumulaImortalView_put_def handle_400_error_def)
next
  case True
  then have "sumula_put v fw req d = put_from_id v fw req d"
    by (cases v) (auto simp: SumulaClassificatoriaView_put_def SumulaImortalView_put_def)
  with True put_from_id_result [of v fw req d] show ?thesis
    by auto
qed

lemma update_sumula_user:
  "update_sumula fw v (req\<lparr>req_user := u\<rparr>) s ev d = update_sumula fw v req s ev d"
  by (simp add: update_sumula_def)

lemmas put_defs = SumulaClassificatoriaView_put_def SumulaImortalView_put_def put_from_id_def
  check_object_permissions_def has_object_permission_def closed_sumula_check_def
  validate_if_staff_is_sumula_referee_def validate_players_score_def resolve_score_def
  update_sumula_def resolve_staff_def resolve_entry_def write_points_def update_rows_def
  aggregate_points_def

lemma find_distinct_key:
  "distinct (map f xs) \<Longrightarrow> find (\<lambda>x. f x = i) xs = Some s \<longleftrightarrow> s \<in> set xs \<and> f s = i"
  by (induction xs) auto

lemma set_map_filter: "set (List.map_filter f xs) = {y. \<exists>x \<in> set xs. f x = Some y}"
  by (induction xs) (auto simp: List.map_filter_def)

lemma no_points_user: "''points'' \<notin> set (json_keys (serialize_user_of d i))"
  by (simp add: serialize_user_of_def UserSerializer_def split: option.split)

lemma no_points_referee: "''points'' \<notin> set (json_keys (serialize_referee d i))"
  by (simp add: serialize_referee_def split: option.split)

lemma no_points_roster: "''points'' \<notin> set (json_keys (roster_entry d ps))"
  by (simp add: roster_entry_def no_points_user split: option.split)

lemma no_points_player_view: "''points'' \<notin> set (json_keys (SumulaForPlayerSerializer d v s))"
  by (simp add: SumulaForPlayerSerializer_def no_points_referee no_points_roster)

lemma player_get_unfold:
  assumes "get_object d req = Inr ev" and "player_has_object_permission fw req ev"
    and "find_player_of d (req_user req) ev = Some p"
    and "v = (if is_imortal p then Imortal else Classificatoria)"
  shows "GetSumulaForPlayer_get fw req d =
           (if active_sumulas_of d v p = [] then (handle_400_error no_associated_sumula, d)
            else (Response 200 (JList (map (SumulaForPlayerSerializer d v) (active_sumulas_of d v p))), d))"
  using assms by (simp add: GetSumulaForPlayer_get_def Let_def)

lemma player_get_body:
  "fst (GetSumulaForPlayer_get fw req d) = Response 200 body \<Longrightarrow>
     \<exists>v ss. body = JList (map (SumulaForPlayerSerializer d v) ss)"
  by (auto simp: GetSumulaForPlayer_get_def Let_def handle_400_error_def permission_denied_def
      split: sum.splits option.splits if_splits)

lemma fold_max_ge: "(a::int) \<le> fold max xs a"
  by (induction xs arbitrary: a) (auto intro: order_trans [OF max.cobounded2])

lemma fold_max_mem: "(x::int) \<in> set xs \<Longrightarrow> x \<le> fold max xs a"
proof (induction xs arbitrary: a)
  case Nil
  then show ?case by simp
next
  case (Cons y ys)
  show ?case
  proof (cases "x = y")
    case True
    have "y \<le> max y a" by simp
    also have "\<dots> \<le> fold max ys (max y a)" by (rule fold_max_ge)
    finally show ?thesis using True by simp
  next
    case False
    with Cons show ?thesis by simp
  qed
qed

lemma next_id_fresh: "i \<in> set ids \<Longrightarrow> i < next_id ids"
  using fold_max_mem [of i ids 0] by (simp add: next_id_def)

lemma those_map_length: "those (map f xs) = Some ys \<Longrightarrow> length ys = length xs"
  by (induction xs arbitrary: ys) (auto split: option.splits)

lemma create_scores_append:
  "\<exists>new. create_scores v sid ev qs tbl = tbl @ new \<and> length new = length qs
         \<and> (\<forall>x \<in> set new. points x = 0 \<and> score_sumula v x = Some sid)"
proof (induction qs arbitrary: tbl)
  case Nil
  show ?case by simp
next
  case (Cons q qs)
  let ?row = "new_player_score v sid ev q (next_id (map score_id tbl))"
  from Cons [of "tbl @ [?row]"] obtain new
    where n: "create_scores v sid ev qs (tbl @ [?row]) = (tbl @ [?row]) @ new"
      "length new = length qs" "\<forall>x \<in> set new. points x = 0 \<and> score_sumula v x = Some sid"
    by blast
  have r: "points ?row = 0 \<and> score_sumula v ?row = Some sid"
    by (cases v) (simp_all add: new_player_score_def)
  show ?case
    by (rule exI [of _ "?row # new"]) (use n r in simp)
qed

lemma fold_referee_add_fields:
  "sumula_id (fold referee_add is s) = sumula_id s \<and> name (fold referee_add is s) = name s
   \<and> active (fold referee_add is s) = active s \<and> sumula_event (fold referee_add is s) = sumula_event s"
  by (induction "is" arbitrary: s) (simp_all add: referee_add_def)

lemma update_rows_last:
  assumes "\<forall>r \<in> set tbl. \<not> P r" and "P s"
  shows "update_rows P f (tbl @ [s]) = tbl @ [f s]"
  using assms by (simp add: update_rows_def map_idI)

lemma resolve_player_players:
  "players d1 = players d \<Longrightarrow> resolve_player fw d1 v ev = resolve_player fw d v ev"
  by (rule ext) (simp add: resolve_player_def split: option.split)

lemma add_referees_Inr:
  assumes "add_referees fw v s ev rs d2 = Inr d3"
  shows "\<exists>sts :: staff list. d3 = set_sumula_table v
                 (update_rows (\<lambda>r. sumula_id r = sumula_id s)
                    (fold referee_add (map staff_id sts)) (sumula_table v d2)) d2"
proof (cases "those (map (resolve_staff fw d2 ev) rs)")
  case None
  with assms show ?thesis by (simp add: add_referees_def)
next
  case (Some sts)
  with assms have "d3 = set_sumula_table v
                 (update_rows (\<lambda>r. sumula_id r = sumula_id s)
                    (fold referee_add (map staff_id sts)) (sumula_table v d2)) d2"
    by (simp add: add_referees_def)
  then show ?thesis ..
qed

lemma sumula_post_unfold:
  assumes "validate_request_data_dict (req_data req)" and "has_key (req_data req) ''name''"
    and "validate_players fw d v req" and "validate_referees fw d req"
    and "get_object d req = Inr ev" and "has_object_permission fw req ev"
    and "get_key (req_data req) ''name'' = Some jn" and "to_text fw jn = Some nm"
    and "get_key (req_data req) ''players'' = Some (JList ps)"
    and "s = new_sumula (sumula_table v d) ev nm"
    and "d1 = set_sumula_table v (sumula_table v d @ [s]) d"
  shows "sumula_post v fw req d =
           (case create_players_score fw v ps s ev d1 of
              Inl e \<Rightarrow> (handle_400_error e, d1)
            | Inr d2 \<Rightarrow>
                (case get_key (req_data req) ''referees'' of
                   Some (JList rs) \<Rightarrow>
                     (case add_referees fw v s ev rs d2 of
                        Inl e \<Rightarrow> (ServerError, d2)
                      | Inr d3 \<Rightarrow>
                          (Response 201 (SumulaSerializer d3 v (with_referees_of d3 v s)), d3))
                 | _ \<Rightarrow> (ServerError, d2)))"
  using assms(1-9) unfolding assms(10,11)
  by (simp add: sumula_post_def check_object_permissions_def Let_def)

lemmas post_defs = SumulaClassificatoriaView_post_def SumulaImortalView_post_def sumula_post_def
  validate_players_def validate_referees_def create_players_score_def resolve_player_def
  add_referees_def new_sumula_def new_player_score_def next_id_def with_referees_of_def

lemma closed_at_append:
  "closed_at i tbl \<Longrightarrow> sumula_id s \<noteq> i \<Longrightarrow> closed_at i (tbl @ [s])"
  by (auto simp: closed_at_def)

lemma closed_at_update_rows:
  assumes "closed_at i tbl"
    and "\<And>r. sumula_id (f r) = sumula_id r" and "\<And>r. active (f r) \<Longrightarrow> active r"
  shows "closed_at i (update_rows P f tbl)"
proof -
  have "i \<in> sumula_id ` set (update_rows P f tbl)"
  proof -
    from assms(1) obtain r where "r \<in> set tbl" "sumula_id r = i"
      by (auto simp: closed_at_def)
    then have "(if P r then f r else r) \<in> set (update_rows P f tbl)"
      by (simp add: update_rows_def)
    moreover have "sumula_id (if P r then f r else r) = i"
      using \<open>sumula_id r = i\<close> assms(2) by simp
    ultimately show ?thesis by force
  qed
  moreover have "\<forall>r \<in> set (update_rows P f tbl). sumula_id r = i \<longrightarrow> \<not> active r"
    using assms by (auto simp: update_rows_def closed_at_def)
  ultimately show ?thesis by (simp add: closed_at_def)
qed

lemma closed_stay_closed_refl: "closed_stay_closed d d"
  by (simp add: closed_stay_closed_def)

lemma closed_stay_closed_tables:
  assumes "sumula_table v0 d' = tbl'" and "sumula_table (other v0) d' = sumula_table (other v0) d"
    and "\<And>i. closed_at i (sumula_table v0 d) \<Longrightarrow> closed_at i tbl'"
  shows "closed_stay_closed d d'"
  unfolding closed_stay_closed_def
proof (intro allI impI)
  fix v i assume c: "closed_at i (sumula_table v d)"
  show "closed_at i (sumula_table v d')"
  proof (cases "v = v0")
    case True
    with c assms(1,3) show ?thesis by simp
  next
    case False
    then have "v = other v0" by (cases v; cases v0) simp_all
    with c assms(2) show ?thesis by simp
  qed
qed

lemma fold_write_points_tables:
  "sumula_table v (fold (\<lambda>(ps, n). write_points ps n) ws d) = sumula_table v d"
  by (induction ws arbitrary: d) (auto simp: write_points_def Let_def split: prod.splits; cases v; simp)+

lemma update_sumula_Inr:
  assumes "update_sumula fw v req s ev d = Inr d'"
  shows "\<exists>nm (sts :: staff list) ws.
           get_key (req_data req) ''name'' \<noteq> None
           \<and> (case get_key (req_data req) ''name'' of None \<Rightarrow> None | Some jn \<Rightarrow> to_text fw jn) = Some nm
           \<and> (\<exists>rs. get_key (req_data req) ''referee'' = Some (JList rs)
                  \<and> those (map (resolve_staff fw d ev) rs) = Some sts)
           \<and> (\<exists>es. get_key (req_data req) ''players_score'' = Some (JList es)
                  \<and> those (map (resolve_entry fw d v (sumula_id s)) es) = Some ws)
           \<and> d' = fold (\<lambda>(ps, n). write_points ps n) ws
                      (set_sumula_table v
                         (update_rows (\<lambda>r. sumula_id r = sumula_id s)
                            (\<lambda>r. r\<lparr>name := nm, referee := remdups (map staff_id sts), active := False\<rparr>)
                            (sumula_table v d)) d)"
proof (cases "get_key (req_data req) ''name''")
  case None
  with assms show ?thesis by (simp add: update_sumula_def)
next
  case (Some jn)
  note jn = this
  show ?thesis
  proof (cases "get_key (req_data req) ''referee''")
    case None
    with assms jn show ?thesis by (simp add: update_sumula_def)
  next
    case (Some jr)
    note jr = this
    show ?thesis
    proof (cases "get_key (req_data req) ''players_score''")
      case None
      with assms jn jr show ?thesis by (cases jr) (simp_all add: update_sumula_def)
    next
      case (Some je)
      note je = this
      from assms jn jr je obtain rs es where rs: "jr = JList rs" and es: "je = JList es"
        by (cases jr; cases je) (simp_all add: update_sumula_def)
      from assms jn jr je rs es obtain nm where nm: "to_text fw jn = Some nm"
        by (cases "to_text fw jn") (simp_all add: update_sumula_def)
      from assms jn jr je rs es nm obtain sts
        where sts: "those (map (resolve_staff fw d ev) rs) = Some sts"
        by (cases "those (map (resolve_staff fw d ev) rs)") (simp_all add: update_sumula_def)
      from assms jn jr je rs es nm sts obtain ws
        where ws: "those (map (resolve_entry fw d v (sumula_id s)) es) = Some ws"
        by (cases "those (map (resolve_entry fw d v (sumula_id s)) es)") (simp_all add: update_sumula_def)
      from assms jn jr je rs es nm sts ws
      have "d' = fold (\<lambda>(ps, n). write_points ps n) ws
                      (set_sumula_table v
                         (update_rows (\<lambda>r. sumula_id r = sumula_id s)
                            (\<lambda>r. r\<lparr>name := nm, referee := remdups (map staff_id sts), active := False\<rparr>)
                            (sumula_table v d)) d)"
        by (simp add: update_sumula_def)
      with jn jr je rs es nm sts ws show ?thesis
        by simp
    qed
  qed
qed

lemma update_sumula_closed:
  assumes "update_sumula fw v req s ev d = Inr d'"
  shows "closed_stay_closed d d'"
proof -
  from update_sumula_Inr [OF assms] obtain nm and sts :: "staff list" and ws
    where d': "d' = fold (\<lambda>(ps, n). write_points ps n) ws
                      (set_sumula_table v
                         (update_rows (\<lambda>r. sumula_id r = sumula_id s)
                            (\<lambda>r. r\<lparr>name := nm, referee := remdups (map staff_id sts), active := False\<rparr>)
                            (sumula_table v d)) d)"
    by blast
  show ?thesis
  proof (rule closed_stay_closed_tables [of v])
    show "sumula_table v d' = update_rows (\<lambda>r. sumula_id r = sumula_id s)
                            (\<lambda>r. r\<lparr>name := nm, referee := remdups (map staff_id sts), active := False\<rparr>)
                            (sumula_table v d)"
      unfolding d' fold_write_points_tables by (simp only: sumula_table_set)
    show "sumula_table (other v) d' = sumula_table (other v) d"
      unfolding d' fold_write_points_tables by (simp only: sumula_table_set)
    show "closed_at i (update_rows (\<lambda>r. sumula_id r = sumula_id s)
                            (\<lambda>r. r\<lparr>name := nm, referee := remdups (map staff_id sts), active := False\<rparr>)
                            (sumula_table v d))"
      if "closed_at i (sumula_table v d)" for i
      using that by (rule closed_at_update_rows) simp_all
  qed
qed

lemma sumula_put_closed: "closed_stay_closed d (snd (sumula_put v fw req d))"
  using sumula_put_result [of v fw req d] update_sumula_closed [of fw v req _ _ d]
  by (auto simp: closed_stay_closed_refl)

lemma list_sumulas_db: "snd (list_sumulas act fw req d) = d"
  by (simp add: list_sumulas_def split: sum.split option.split prod.split)

lemma player_get_db: "snd (GetSumulaForPlayer_get fw req d) = d"
  by (simp add: GetSumulaForPlayer_get_def Let_def split: sum.split option.split)

lemma add_referee_closed: "closed_stay_closed d (snd (AddRefereeToSumulaView_put fw req d))"
proof -
  have "snd (AddRefereeToSumulaView_put fw req d) = d
        \<or> (\<exists>v i k. snd (AddRefereeToSumulaView_put fw req d) =
              set_sumula_table v (update_rows (\<lambda>r. sumula_id r = i) (referee_add k)
                 (sumula_table v d)) d)"
    by (auto simp add: AddRefereeToSumulaView_put_def Let_def
        simp del: set_sumula_table.simps sumula_table.simps split: sum.split option.split)
  then show ?thesis
  proof
    assume "snd (AddRefereeToSumulaView_put fw req d) = d"
    then show ?thesis by (simp add: closed_stay_closed_refl)
  next
    assume "\<exists>v i k. snd (AddRefereeToSumulaView_put fw req d) =
              set_sumula_table v (update_rows (\<lambda>r. sumula_id r = i) (referee_add k)
                 (sumula_table v d)) d"
    then obtain v i k where e: "snd (AddRefereeToSumulaView_put fw req d) =
              set_sumula_table v (update_rows (\<lambda>r. sumula_id r = i) (referee_add k)
                 (sumula_table v d)) d"
      by blast
    show ?thesis
    proof (rule closed_stay_closed_tables [of v])
      show "sumula_table v (snd (AddRefereeToSumulaView_put fw req d))
              = update_rows (\<lambda>r. sumula_id r = i) (referee_add k) (sumula_table v d)"
        unfolding e by (simp only: sumula_table_set)
      show "sumula_table (other v) (snd (AddRefereeToSumulaView_put fw req d)) = sumula_table (other v) d"
        unfolding e by (simp only: sumula_table_set)
      show "closed_at j (update_rows (\<lambda>r. sumula_id r = i) (referee_add k) (sumula_table v d))"
        if "closed_at j (sumula_table v d)" for j
        using that by (rule closed_at_update_rows) (simp_all add: referee_add_def)
    qed
  qed
qed

lemma sumula_post_table:
  assumes "validate_request_data_dict (req_data req)" and "has_key (req_data req) ''name''"
    and "validate_players fw d v req" and "validate_referees fw d req"
    and "get_object d req = Inr ev" and "has_object_permission fw req ev"
    and "get_key (req_data req) ''name'' = Some jn" and "to_text fw jn = Some nm"
    and "get_key (req_data req) ''players'' = Some (JList ps)"
  shows "\<exists>s'. sumula_table v (snd (sumula_post v fw req d)) = sumula_table v d @ [s']
            \<and> sumula_id s' \<notin> sumula_id ` set (sumula_table v d)
            \<and> sumula_table (other v) (snd (sumula_post v fw req d)) = sumula_table (other v) d"
proof -
  define s where "s = new_sumula (sumula_table v d) ev nm"
  define d1 where "d1 = set_sumula_table v (sumula_table v d @ [s]) d"
  note run = sumula_post_unfold [OF assms s_def d1_def]
  have fresh: "\<forall>r \<in> set (sumula_table v d). sumula_id r \<noteq> sumula_id s"
  proof
    fix r assume "r \<in> set (sumula_table v d)"
    then have "sumula_id r \<in> set (map sumula_id (sumula_table v d))" by simp
    then have "sumula_id r < next_id (map sumula_id (sumula_table v d))"
      by (rule next_id_fresh)
    then show "sumula_id r \<noteq> sumula_id s"
      by (simp add: s_def new_sumula_def)
  qed
  have d1_tbl: "sumula_table v d1 = sumula_table v d @ [s]"
    and d1_other: "sumula_table (other v) d1 = sumula_table (other v) d"
    by (simp_all add: d1_def sumula_table_set)
  have at: ?thesis
    if "sumula_table v (snd (sumula_post v fw req d)) = sumula_table v d @ [s']"
      and "sumula_id s' = sumula_id s"
      and "sumula_table (other v) (snd (sumula_post v fw req d)) = sumula_table (other v) d" for s'
    using that fresh by auto
  show ?thesis
  proof (cases "create_players_score fw v ps s ev d1")
    case (Inl e)
    with run have "snd (sumula_post v fw req d) = d1" by simp
    with d1_tbl d1_other show ?thesis by (intro at [of s]) simp_all
  next
    case (Inr d2)
    then have d2: "d2 = d1\<lparr>player_scores := player_scores d2\<rparr>"
      by (auto simp: create_players_score_def split: option.splits)
    have d2_tbl: "sumula_table v d2 = sumula_table v d @ [s]"
      and d2_other: "sumula_table (other v) d2 = sumula_table (other v) d"
      by (subst d2; cases v; simp add: d1_def)+
    have at_d2: ?thesis if "snd (sumula_post v fw req d) = d2"
      using that d2_tbl d2_other by (intro at [of s]) simp_all
    show ?thesis
    proof (cases "get_key (req_data req) ''referees''")
      case None
      with run Inr have "snd (sumula_post v fw req d) = d2" by simp
      then show ?thesis by (rule at_d2)
    next
      case (Some jr)
      show ?thesis
      proof (cases "\<exists>rs. jr = JList rs")
        case False
        with run Inr Some have "snd (sumula_post v fw req d) = d2"
          by (cases jr) simp_all
        then show ?thesis by (rule at_d2)
      next
        case True
        then obtain rs where rs: "jr = JList rs" by blast
        show ?thesis
        proof (cases "add_referees fw v s ev rs d2")
          case (Inl e)
          with run \<open>create_players_score fw v ps s ev d1 = Inr d2\<close> Some rs
          have "snd (sumula_post v fw req d) = d2" by simp
          then show ?thesis by (rule at_d2)
        next
          case (Inr d3)
          with run \<open>create_players_score fw v ps s ev d1 = Inr d2\<close> Some rs
          have d3: "snd (sumula_post v fw req d) = d3" by simp
          from add_referees_Inr [OF Inr] obtain sts :: "staff list" where
            d3_def: "d3 = set_sumula_table v
                 (update_rows (\<lambda>r. sumula_id r = sumula_id s)
                    (fold referee_add (map staff_id sts)) (sumula_table v d2)) d2"
            by blast
          let ?s' = "fold referee_add (map staff_id sts) s"
          have tbl: "sumula_table v d3 = sumula_table v d @ [?s']"
            unfolding d3_def sumula_table_set d2_tbl
            using fresh by (intro update_rows_last) simp_all
          have oth: "sumula_table (other v) d3 = sumula_table (other v) d"
            unfolding d3_def sumula_table_set by (rule d2_other)
          show ?thesis
            using tbl oth fold_referee_add_fields [of "map staff_id sts" s]
            unfolding d3 [symmetric] by (intro at [of ?s']) simp_all
        qed
      qed
    qed
  qed
qed

lemma sumula_post_shape:
  "snd (sumula_post v fw req d) = d
   \<or> (\<exists>ev jn nm ps. validate_request_data_dict (req_data req) \<and> has_key (req_data req) ''name''
          \<and> validate_players fw d v req \<and> validate_referees fw d req
          \<and> get_object d req = Inr ev \<and> has_object_permission fw req ev
          \<and> get_key (req_data req) ''name'' = Some jn \<and> to_text fw jn = Some nm
          \<and> get_key (req_data req) ''players'' = Some (JList ps))"
  by (auto simp: sumula_post_def check_object_permissions_def
      split: sum.split option.split json.split)

lemma sumula_post_closed: "closed_stay_closed d (snd (sumula_post v fw req d))"
  using sumula_post_shape [of v fw req d]
proof
  assume "snd (sumula_post v fw req d) = d"
  then show ?thesis by (simp add: closed_stay_closed_refl)
next
  assume "\<exists>ev jn nm ps. validate_request_data_dict (req_data req) \<and> has_key (req_data req) ''name''
          \<and> validate_players fw d v req \<and> validate_referees fw d req
          \<and> get_object d req = Inr ev \<and> has_object_permission fw req ev
          \<and> get_key (req_data req) ''name'' = Some jn \<and> to_text fw jn = Some nm
          \<and> get_key (req_data req) ''players'' = Some (JList ps)"
  then obtain ev jn nm ps where "validate_request_data_dict (req_data req)" "has_key (req_data req) ''name''"
    "validate_players fw d v req" "validate_referees fw d req"
    "get_object d req = Inr ev" "has_object_permission fw req ev"
    "get_key (req_data req) ''name'' = Some jn" "to_text fw jn = Some nm"
    "get_key (req_data req) ''players'' = Some (JList ps)"
    by blast
  from sumula_post_table [OF this] obtain s'
    where t: "sumula_table v (snd (sumula_post v fw req d)) = sumula_table v d @ [s']"
      "sumula_id s' \<notin> sumula_id ` set (sumula_table v d)"
      "sumula_table (other v) (snd (sumula_post v fw req d)) = sumula_table (other v) d"
    by blast
  show ?thesis
  proof (rule closed_stay_closed_tables [of v, OF t(1) t(3)])
    fix i assume c: "closed_at i (sumula_table v d)"
    then have "sumula_id s' \<noteq> i"
      using t(2) by (auto simp: closed_at_def)
    with c show "closed_at i (sumula_table v d @ [s'])"
      by (rule closed_at_append)
  qed
qed

lemma dispatch_closed: "closed_stay_closed d (snd (dispatch fw view req d))"
  by (cases view)
     (simp_all add: closed_stay_closed_refl no_handler_def GetSumulasView_get_def ActiveSumulaView_get_def
        FinishedSumulaView_get_def list_sumulas_db player_get_db add_referee_closed
        SumulaClassificatoriaView_post_def SumulaImortalView_post_def sumula_post_closed
        sumula_put_closed [of _ Classificatoria, simplified]
        sumula_put_closed [of _ Imortal, simplified])

lemma run_requests_closed: "closed_stay_closed d (run_requests fw ops d)"
proof (induction ops arbitrary: d)
  case Nil
  show ?case by (simp add: closed_stay_closed_refl)
next
  case (Cons op ops)
  obtain view req where op: "op = (view, req)" by (cases op)
  from dispatch_closed [of d fw view req] Cons [of "snd (dispatch fw view req d)"]
  show ?case
    unfolding op by (simp add: closed_stay_closed_def)
qed

lemma closed_at_distinct:
  assumes "s \<in> set tbl" and "\<not> active s" and "distinct (map sumula_id tbl)"
  shows "closed_at (sumula_id s) tbl"
proof -
  have "r = s" if "r \<in> set tbl" "sumula_id r = sumula_id s" for r
    using that assms(1,3) by (meson distinct_map inj_onD)
  with assms(1,2) show ?thesis
    by (auto simp: closed_at_def)
qed

lemma those_map_mem:
  "those (map f xs) = Some ys \<Longrightarrow> y \<in> set ys \<Longrightarrow> \<exists>x \<in> set xs. f x = Some y"
  by (induction xs arbitrary: ys) (auto split: option.splits)

lemma write_points_scores:
  "player_scores (write_points ps n d)
     = map (\<lambda>r. if score_id r = score_id ps then r\<lparr>points := n\<rparr> else r) (player_scores d)"
  by (simp add: write_points_def update_rows_def Let_def)

lemma write_points_keys:
  "map score_id (player_scores (write_points ps n d)) = map score_id (player_scores d)"
  "map score_player (player_scores (write_points ps n d)) = map score_player (player_scores d)"
  by (simp_all add: write_points_scores)

lemma aggregate_points_other:
  assumes "\<forall>r \<in> set tbl. score_id r = k \<longrightarrow> score_player r \<noteq> q"
  shows "aggregate_points (map (\<lambda>r. if score_id r = k then r\<lparr>points := n\<rparr> else r) tbl) q e
           = aggregate_points tbl q e"
  using assms by (induction tbl) (auto simp: aggregate_points_def)

lemma write_points_consistent_owner:
  "total_score_consistent (write_points ps n d) (score_player ps)"
  by (auto simp: total_score_consistent_def write_points_def update_rows_def Let_def)

lemma write_points_consistent_other:
  assumes "total_score_consistent d q" and "q \<noteq> score_player ps"
    and "\<forall>r \<in> set (player_scores d). score_id r = score_id ps \<longrightarrow> score_player r = score_player ps"
  shows "total_score_consistent (write_points ps n d) q"
proof -
  have agg: "aggregate_points (player_scores (write_points ps n d)) q e
               = aggregate_points (player_scores d) q e" for e
    unfolding write_points_scores
    using assms(2,3) by (intro aggregate_points_other) auto
  have pl: "p \<in> set (players d) \<and> player_id p = q"
    if "p \<in> set (players (write_points ps n d))" "player_id p = q" for p
    using that assms(2) by (auto simp: write_points_def update_rows_def Let_def split: if_splits)
  show ?thesis
    unfolding total_score_consistent_def
  proof (intro ballI impI)
    fix p assume "p \<in> set (players (write_points ps n d))" "player_id p = q"
    with pl have "p \<in> set (players d)" "player_id p = q" by blast+
    with assms(1) have "total_score p = aggregate_points (player_scores d) (player_id p) (player_event p)"
      by (simp add: total_score_consistent_def)
    with agg [of "player_event p"] \<open>player_id p = q\<close>
    show "total_score p = aggregate_points (player_scores (write_points ps n d)) (player_id p) (player_event p)"
      by simp
  qed
qed

lemma owner_ok_write_points: "owner_ok d ps \<Longrightarrow> owner_ok (write_points ps' n d) ps"
  by (auto simp: owner_ok_def write_points_scores split: if_splits)

lemma fold_write_points_consistent_keep:
  assumes "total_score_consistent d q" and "\<forall>w \<in> set ws. owner_ok d (fst w)"
  shows "total_score_consistent (fold (\<lambda>(ps, n). write_points ps n) ws d) q"
  using assms
proof (induction ws arbitrary: d)
  case Nil
  then show ?case by simp
next
  case (Cons w ws)
  obtain ps n where w: "w = (ps, n)" by (cases w)
  have step: "total_score_consistent (write_points ps n d) q"
  proof (cases "q = score_player ps")
    case True
    then show ?thesis by (simp add: write_points_consistent_owner)
  next
    case False
    with Cons.prems w show ?thesis
      by (intro write_points_consistent_other) (auto simp: owner_ok_def)
  qed
  have "\<forall>w \<in> set ws. owner_ok (write_points ps n d) (fst w)"
    using Cons.prems(2) by (simp add: owner_ok_write_points)
  with Cons.IH [OF step] show ?case
    by (simp add: w)
qed

lemma fold_write_points_consistent:
  assumes "\<forall>w \<in> set ws. owner_ok d (fst w)" and "w \<in> set ws"
  shows "total_score_consistent (fold (\<lambda>(ps, n). write_points ps n) ws d) (score_player (fst w))"
  using assms
proof (induction ws arbitrary: d)
  case Nil
  then show ?case by simp
next
  case (Cons x ws)
  obtain ps n where x: "x = (ps, n)" by (cases x)
  have ok: "\<forall>w \<in> set ws. owner_ok (write_points ps n d) (fst w)"
    using Cons.prems(1) by (simp add: owner_ok_write_points)
  show ?case
  proof (cases "w = x")
    case True
    have "total_score_consistent (write_points ps n d) (score_player ps)"
      by (rule write_points_consistent_owner)
    from fold_write_points_consistent_keep [OF this ok] True x show ?thesis
      by simp
  next
    case False
    with Cons.prems(2) have "w \<in> set ws" by simp
    from Cons.IH [OF ok this] x show ?thesis
      by simp
  qed
qed

lemma fold_write_points_keys:
  "map score_id (player_scores (fold (\<lambda>(ps, n). write_points ps n) ws d)) = map score_id (player_scores d)"
  by (induction ws arbitrary: d) (auto simp: write_points_keys)

lemma fold_write_points_keep:
  assumes "\<forall>r \<in> set (player_scores d). score_id r = k \<longrightarrow> points r = n"
    and "k \<notin> (\<lambda>w. score_id (fst w)) ` set ws"
  shows "\<forall>r \<in> set (player_scores (fold (\<lambda>(ps, n). write_points ps n) ws d)).
           score_id r = k \<longrightarrow> points r = n"
  using assms
proof (induction ws arbitrary: d)
  case Nil
  then show ?case by simp
next
  case (Cons w ws)
  obtain ps m where w: "w = (ps, m)" by (cases w)
  from Cons.prems w have "score_id ps \<noteq> k" by auto
  with Cons.prems(1)
  have "\<forall>r \<in> set (player_scores (write_points ps m d)). score_id r = k \<longrightarrow> points r = n"
    by (auto simp: write_points_scores)
  from Cons.IH [OF this] Cons.prems(2) show ?case
    by (simp add: w)
qed

lemma fold_write_points_points:
  assumes "distinct (map (\<lambda>w. score_id (fst w)) ws)" and "(ps, n) \<in> set ws"
  shows "\<forall>r \<in> set (player_scores (fold (\<lambda>(ps, n). write_points ps n) ws d)).
           score_id r = score_id ps \<longrightarrow> points r = n"
  using assms
proof (induction ws arbitrary: d)
  case Nil
  then show ?case by simp
next
  case (Cons w ws)
  obtain p0 n0 where w: "w = (p0, n0)" by (cases w)
  show ?case
  proof (cases "(ps, n) = w")
    case True
    then have eq: "p0 = ps" "n0 = n" using w by simp_all
    have now: "\<forall>r \<in> set (player_scores (write_points ps n d)). score_id r = score_id ps \<longrightarrow> points r = n"
      by (auto simp: write_points_scores)
    have "score_id ps \<notin> (\<lambda>w. score_id (fst w)) ` set ws"
      using Cons.prems(1) w eq by auto
    from fold_write_points_keep [OF now this] show ?thesis
      by (simp add: w eq)
  next
    case False
    with Cons.prems(2) have "(ps, n) \<in> set ws" by simp
    moreover from Cons.prems(1) have "distinct (map (\<lambda>w. score_id (fst w)) ws)" by simp
    ultimately show ?thesis
      using Cons.IH by (simp add: w)
  qed
qed

lemma resolve_entry_mem:
  "resolve_entry fw d v i e = Some (ps, n) \<Longrightarrow> ps \<in> set (player_scores d)"
  by (auto simp: resolve_entry_def resolve_score_def find_Some_iff split: option.splits)

lemma owner_ok_distinct:
  assumes "distinct (map score_id (player_scores d))" and "ps \<in> set (player_scores d)"
  shows "owner_ok d ps"
  unfolding owner_ok_def
proof (intro ballI impI)
  fix r assume "r \<in> set (player_scores d)" "score_id r = score_id ps"
  with assms have "r = ps" by (meson distinct_map inj_onD)
  then show "score_player r = score_player ps" by simp
qed

lemma sumula_put_success:
  assumes "sumula_put v fw req d = (Response 200 body, d')"
  shows "\<exists>j i s ev. get_key (req_data req) ''id'' = Some j \<and> to_int fw j = Some i
           \<and> find_sumula (sumula_table v d) i = Some s \<and> get_object d req = Inr ev
           \<and> update_sumula fw v req s ev d = Inr d'"
  using sumula_put_result [of v fw req d]
proof (elim disjE exE conjE)
  fix r assume "sumula_put v fw req d = (r, d)" "\<forall>b. r \<noteq> Response 200 b"
  with assms show ?thesis by simp
next
  fix j i s ev d''
  assume "get_key (req_data req) ''id'' = Some j" "to_int fw j = Some i"
    "find_sumula (sumula_table v d) i = Some s" "get_object d req = Inr ev"
    "update_sumula fw v req s ev d = Inr d''" "sumula_put v fw req d = (Response 200 JNull, d'')"
  with assms show ?thesis by simp
qed

lemma update_sumula_result:
  assumes "update_sumula fw v req s ev d = Inr d'"
    and "get_key (req_data req) ''name'' = Some jn" and "to_text fw jn = Some nm"
    and "get_key (req_data req) ''referee'' = Some (JList rs)"
    and "those (map (resolve_staff fw d ev) rs) = Some sts"
    and "get_key (req_data req) ''players_score'' = Some (JList es)"
    and "those (map (resolve_entry fw d v (sumula_id s)) es) = Some ws"
  shows "d' = fold (\<lambda>(ps, n). write_points ps n) ws
                (set_sumula_table v
                   (update_rows (\<lambda>r. sumula_id r = sumula_id s)
                      (\<lambda>r. r\<lparr>name := nm, referee := remdups (map staff_id sts), active := False\<rparr>)
                      (sumula_table v d)) d)"
  using assms by (simp add: update_sumula_def)

lemma those_map_Some:
  "list_all (\<lambda>x. f x \<noteq> None) xs \<Longrightarrow> \<exists>ys. those (map f xs) = Some ys"
  by (induction xs) auto

lemma resolve_staff_staffs:
  "staffs d1 = staffs d \<Longrightarrow> resolve_staff fw d1 ev = resolve_staff fw d ev"
  by (rule ext) (simp add: resolve_staff_def split: option.split)

section \<open>Properties of the permission gate\<close>

text \<open>
  C10. For every request whose method is none of POST, GET, PUT and DELETE, the object
  permission gate of the sumula views returns True, whatever the permission lookup says.
\<close>

theorem has_object_permission_default_allow:
  assumes "http_method req \<notin> {''POST'', ''GET'', ''PUT'', ''DELETE''}"
  shows "has_object_permission fw req obj = True"
  using assms by (simp add: has_object_permission_def)

theorem has_object_permission_default_allow_witness:
  "http_method (mk_request ''PATCH'' u_outsider JNull) \<notin> {''POST'', ''GET'', ''PUT'', ''DELETE''}
   \<and> has_object_permission fw_deny (mk_request ''PATCH'' u_outsider JNull) ev1 = True"
  using has_object_permission_default_allow [of "mk_request ''PATCH'' u_outsider JNull" fw_deny ev1]
  by (simp add: mk_request_def)

text \<open>
  C6, as stated, fails: the admin of the event, holding no grant, is refused by the gate.
  The request below is a PUT by the user whose email is the admin email of the event;
  with a permission lookup that grants nothing the gate answers False and the view
  answers 403.
\<close>

theorem admin_email_counterexample:
  "email (req_user (mk_request ''PUT'' u_admin (close_payload 1 [(1, 10), (2, 15)]))) = admin_email ev1
   \<and> get_object db1 (mk_request ''PUT'' u_admin (close_payload 1 [(1, 10), (2, 15)])) = Inr ev1
   \<and> has_object_permission fw_deny (mk_request ''PUT'' u_admin (close_payload 1 [(1, 10), (2, 15)])) ev1 = False
   \<and> SumulaClassificatoriaView_put fw_deny (mk_request ''PUT'' u_admin (close_payload 1 [(1, 10), (2, 15)])) db1
       = (permission_denied, db1)"
  by (simp add: fixtures lookups has_object_permission_def SumulaClassificatoriaView_put_def
      put_from_id_def check_object_permissions_def validate_players_score_def resolve_score_def)

text \<open>
  C6, amended. If \<open>user.email\<close> equals \<open>event.admin_email\<close>, Update/Close skips the
  Staff-record and closed-sumula check for that user. The object-permission gate itself
  does not look at the admin email: the request of the admin is allowed exactly when the
  user holds \<open>api.change_sumula_event\<close> on the event, and is then decided by the
  update alone; without the grant it is answered 403.
\<close>

theorem admin_email_skips_staff_check_only:
  assumes "email (req_user req) = admin_email ev"
    and "http_method req = ''PUT''"
    and "validate_request_data_dict (req_data req)"
    and "list_all (has_key (req_data req)) [''id'', ''name'', ''description'']"
    and "v = Classificatoria \<longrightarrow> validate_players_score fw d v (req_data req)"
    and "get_key (req_data req) ''id'' = Some j" and "truthy j" and "to_int fw j = Some i"
    and "find_sumula (sumula_table v d) i = Some s"
    and "get_object d req = Inr ev"
  shows "sumula_put v fw req d =
           (if has_perm fw (req_user req) ''api.change_sumula_event'' ev
            then (case update_sumula fw v req s ev d of
                    Inl e \<Rightarrow> (handle_400_error e, d)
                  | Inr d' \<Rightarrow> (Response 200 JNull, d'))
            else (permission_denied, d))"
proof -
  have gate: "has_object_permission fw req ev = has_perm fw (req_user req) ''api.change_sumula_event'' ev"
    using assms(2) by (simp add: has_object_permission_def)
  have skip: "closed_sumula_check d req s ev = None"
    using assms(1) by (simp add: closed_sumula_check_def)
  show ?thesis
    using sumula_put_unfold [OF assms(3-10)] gate skip by simp
qed

theorem admin_email_skips_staff_check_only_witness:
  "email (req_user (mk_request ''PUT'' u_admin (close_payload 2 [(3, 9)]))) = admin_email ev1
   \<and> http_method (mk_request ''PUT'' u_admin (close_payload 2 [(3, 9)])) = ''PUT''
   \<and> validate_request_data_dict (req_data (mk_request ''PUT'' u_admin (close_payload 2 [(3, 9)])))
   \<and> list_all (has_key (req_data (mk_request ''PUT'' u_admin (close_payload 2 [(3, 9)]))))
         [''id'', ''name'', ''description'']
   \<and> validate_players_score fw_grant db1 Classificatoria
         (req_data (mk_request ''PUT'' u_admin (close_payload 2 [(3, 9)])))
   \<and> get_key (req_data (mk_request ''PUT'' u_admin (close_payload 2 [(3, 9)]))) ''id'' = Some (JInt 2)
   \<and> truthy (JInt 2) \<and> to_int fw_grant (JInt 2) = Some 2
   \<and> find_sumula (sumula_table Classificatoria db1) 2 = Some sc_closed
   \<and> get_object db1 (mk_request ''PUT'' u_admin (close_payload 2 [(3, 9)])) = Inr ev1
   \<and> sumula_put Classificatoria fw_grant (mk_request ''PUT'' u_admin (close_payload 2 [(3, 9)])) db1
       = (case update_sumula fw_grant Classificatoria (mk_request ''PUT'' u_admin (close_payload 2 [(3, 9)]))
                 sc_closed ev1 db1 of
            Inl e \<Rightarrow> (handle_400_error e, db1)
          | Inr d' \<Rightarrow> (Response 200 JNull, d'))"
  using admin_email_skips_staff_check_only
    [of "mk_request ''PUT'' u_admin (close_payload 2 [(3, 9)])" ev1 Classificatoria fw_grant db1
        "JInt 2" 2 sc_closed]
  by (simp add: fixtures lookups validate_players_score_def resolve_score_def)

section \<open>Referee exclusivity\<close>

text \<open>
  C7. An AddReferee request that the permission gate admits, by a user with a Staff
  record for the event, targeting an existing sumula (of the family the \<open>is_imortal\<close>
  flag selects): if the referee set of the sumula is empty the operation succeeds and the
  referee set becomes exactly the requesting staff member, every other sumula staying as
  it was; if the referee set has one or more members the operation returns the conflict
  error and the database is unchanged. A requester with no Staff record for the event
  always fails, and the database is unchanged.
\<close>

theorem add_referee_exclusive:
  "(get_key (req_data req) ''sumula_id'' = Some j \<and> get_key (req_data req) ''is_imortal'' = Some b
      \<and> truthy j \<and> to_int fw j = Some i \<and> get_object d req = Inr ev
      \<and> has_object_permission fw req ev
      \<and> v = (if truthy b then Imortal else Classificatoria)
      \<and> find_sumula (sumula_table v d) i = Some s
      \<and> find_staff_of d (req_user req) ev = Some st
    \<longrightarrow> (referee s = [] \<longrightarrow>
           fst (AddRefereeToSumulaView_put fw req d) = Response 200 JNull
           \<and> find_sumula (sumula_table v (snd (AddRefereeToSumulaView_put fw req d))) i
               = Some (s\<lparr>referee := [staff_id st]\<rparr>)
           \<and> filter (\<lambda>r. sumula_id r \<noteq> i) (sumula_table v (snd (AddRefereeToSumulaView_put fw req d)))
               = filter (\<lambda>r. sumula_id r \<noteq> i) (sumula_table v d)
           \<and> sumula_table (other v) (snd (AddRefereeToSumulaView_put fw req d))
               = sumula_table (other v) d)
       \<and> (referee s \<noteq> [] \<longrightarrow>
           AddRefereeToSumulaView_put fw req d = (handle_400_error already_has_referee, d)))
   \<and> ((case get_object d req of
          Inl e \<Rightarrow> True
        | Inr ev \<Rightarrow> find_staff_of d (req_user req) ev = None)
       \<longrightarrow> snd (AddRefereeToSumulaView_put fw req d) = d
           \<and> (\<forall>body. fst (AddRefereeToSumulaView_put fw req d) \<noteq> Response 200 body))"
proof (rule conjI; rule impI)
  assume a: "get_key (req_data req) ''sumula_id'' = Some j \<and> get_key (req_data req) ''is_imortal'' = Some b
      \<and> truthy j \<and> to_int fw j = Some i \<and> get_object d req = Inr ev
      \<and> has_object_permission fw req ev
      \<and> v = (if truthy b then Imortal else Classificatoria)
      \<and> find_sumula (sumula_table v d) i = Some s
      \<and> find_staff_of d (req_user req) ev = Some st"
  let ?d' = "set_sumula_table v (update_rows (\<lambda>r. sumula_id r = i)
                 (referee_add (staff_id st)) (sumula_table v d)) d"
  from a have run: "AddRefereeToSumulaView_put fw req d =
      (if length (referee s) > 0 then (handle_400_error already_has_referee, d)
       else (Response 200 JNull, ?d'))"
    apply (elim conjE)
    apply (rule add_referee_run)
    apply assumption+
    done
  from a have fnd: "find_sumula (sumula_table v d) i = Some s"
    by (elim conjE)
  show "(referee s = [] \<longrightarrow>
           fst (AddRefereeToSumulaView_put fw req d) = Response 200 JNull
           \<and> find_sumula (sumula_table v (snd (AddRefereeToSumulaView_put fw req d))) i
               = Some (s\<lparr>referee := [staff_id st]\<rparr>)
           \<and> filter (\<lambda>r. sumula_id r \<noteq> i) (sumula_table v (snd (AddRefereeToSumulaView_put fw req d)))
               = filter (\<lambda>r. sumula_id r \<noteq> i) (sumula_table v d)
           \<and> sumula_table (other v) (snd (AddRefereeToSumulaView_put fw req d))
               = sumula_table (other v) d)
       \<and> (referee s \<noteq> [] \<longrightarrow>
           AddRefereeToSumulaView_put fw req d = (handle_400_error already_has_referee, d))"
  proof (rule conjI; rule impI)
    assume e: "referee s = []"
    have run': "AddRefereeToSumulaView_put fw req d = (Response 200 JNull, ?d')"
      using run e by simp
    show "fst (AddRefereeToSumulaView_put fw req d) = Response 200 JNull
           \<and> find_sumula (sumula_table v (snd (AddRefereeToSumulaView_put fw req d))) i
               = Some (s\<lparr>referee := [staff_id st]\<rparr>)
           \<and> filter (\<lambda>r. sumula_id r \<noteq> i) (sumula_table v (snd (AddRefereeToSumulaView_put fw req d)))
               = filter (\<lambda>r. sumula_id r \<noteq> i) (sumula_table v d)
           \<and> sumula_table (other v) (snd (AddRefereeToSumulaView_put fw req d))
               = sumula_table (other v) d"
      unfolding run' fst_conv snd_conv
      by (intro conjI, rule refl, (rule add_referee_effect [OF fnd e refl])+)
  next
    assume "referee s \<noteq> []"
    then show "AddRefereeToSumulaView_put fw req d = (handle_400_error already_has_referee, d)"
      using run by simp
  qed
next
  assume n: "case get_object d req of Inl e \<Rightarrow> True
        | Inr ev \<Rightarrow> find_staff_of d (req_user req) ev = None"
  from add_referee_nostaff [OF n, of fw]
  obtain r where "AddRefereeToSumulaView_put fw req d = (r, d)" and "\<forall>body. r \<noteq> Response 200 body"
    by blast
  then show "snd (AddRefereeToSumulaView_put fw req d) = d
           \<and> (\<forall>body. fst (AddRefereeToSumulaView_put fw req d) \<noteq> Response 200 body)"
    by simp
qed

theorem add_referee_exclusive_witness:
  "(get_key (req_data (mk_request ''PUT'' u_monitor (referee_payload 1 True))) ''sumula_id'' = Some (JInt 1)
    \<and> get_key (req_data (mk_request ''PUT'' u_monitor (referee_payload 1 True))) ''is_imortal'' = Some (JBool True)
    \<and> truthy (JInt 1) \<and> to_int fw_grant (JInt 1) = Some 1
    \<and> get_object db1 (mk_request ''PUT'' u_monitor (referee_payload 1 True)) = Inr ev1
    \<and> has_object_permission fw_grant (mk_request ''PUT'' u_monitor (referee_payload 1 True)) ev1
    \<and> Imortal = (if truthy (JBool True) then Imortal else Classificatoria)
    \<and> find_sumula (sumula_table Imortal db1) 1 = Some si_open
    \<and> find_staff_of db1 (req_user (mk_request ''PUT'' u_monitor (referee_payload 1 True))) ev1 = Some st_monitor
    \<and> referee si_open = [])
   \<and> fst (AddRefereeToSumulaView_put fw_grant (mk_request ''PUT'' u_monitor (referee_payload 1 True)) db1)
       = Response 200 JNull
   \<and> find_sumula (sumula_table Imortal
         (snd (AddRefereeToSumulaView_put fw_grant (mk_request ''PUT'' u_monitor (referee_payload 1 True)) db1))) 1
       = Some (si_open\<lparr>referee := [staff_id st_monitor]\<rparr>)
   \<and> (find_sumula (sumula_table Classificatoria db1) 2 = Some sc_closed \<and> referee sc_closed \<noteq> [])
   \<and> AddRefereeToSumulaView_put fw_grant (mk_request ''PUT'' u_monitor (referee_payload 2 False)) db1
       = (handle_400_error already_has_referee, db1)
   \<and> find_staff_of db1 (req_user (mk_request ''PUT'' u_outsider (referee_payload 1 True))) ev1 = None
   \<and> snd (AddRefereeToSumulaView_put fw_grant (mk_request ''PUT'' u_outsider (referee_payload 1 True)) db1) = db1"
  using add_referee_exclusive
    [of "mk_request ''PUT'' u_monitor (referee_payload 1 True)" "JInt 1" "JBool True" fw_grant 1 db1 ev1
        Imortal si_open st_monitor]
    add_referee_exclusive
    [of "mk_request ''PUT'' u_monitor (referee_payload 2 False)" "JInt 2" "JBool False" fw_grant 2 db1 ev1
        Classificatoria sc_closed st_monitor]
    add_referee_exclusive
    [of "mk_request ''PUT'' u_outsider (referee_payload 1 True)" "JInt 1" "JBool True" fw_grant 1 db1 ev1
        Imortal si_open st_monitor]
  by (simp add: fixtures lookups has_object_permission_def)

section \<open>Closed sumulas\<close>




section \<open>Open sumulas\<close>

text \<open>
  C5. On a sumula whose \<open>active\<close> flag is true, a staff member of the event who holds
  \<open>api.change_sumula_event\<close> on that event performs Update/Close with success, with
  any payload the update accepts; no condition on the referee set of the sumula is
  involved, and whether the update accepts the payload does not depend on who asks.
\<close>

theorem open_sumula_editable_by_staff:
  assumes "validate_request_data_dict (req_data req)"
    and "list_all (has_key (req_data req)) [''id'', ''name'', ''description'']"
    and "v = Classificatoria \<longrightarrow> validate_players_score fw d v (req_data req)"
    and "get_key (req_data req) ''id'' = Some j" and "truthy j" and "to_int fw j = Some i"
    and "find_sumula (sumula_table v d) i = Some s"
    and "get_object d req = Inr ev"
    and "http_method req = ''PUT''"
    and "has_perm fw (req_user req) ''api.change_sumula_event'' ev"
    and "find_staff_of d (req_user req) ev = Some st"
    and "active s"
    and "update_sumula fw v req s ev d = Inr d'"
  shows "sumula_put v fw req d = (Response 200 JNull, d')
       \<and> (\<forall>u. update_sumula fw v (req\<lparr>req_user := u\<rparr>) s ev d = Inr d')"
proof -
  have gate: "has_object_permission fw req ev"
    using assms(9,10) by (simp add: has_object_permission_def)
  have chk: "closed_sumula_check d req s ev = None"
    using assms(11,12) by (auto simp: closed_sumula_check_None)
  show ?thesis
    using sumula_put_unfold [OF assms(1-8)] gate chk assms(13)
    by (simp add: update_sumula_user)
qed

theorem open_sumula_editable_by_staff_witness:
  "(validate_request_data_dict (req_data (mk_request ''PUT'' u_monitor (close_payload 1 [(1, 10), (2, 15)])))
    \<and> list_all (has_key (req_data (mk_request ''PUT'' u_monitor (close_payload 1 [(1, 10), (2, 15)]))))
          [''id'', ''name'', ''description'']
    \<and> validate_players_score fw_grant db1 Classificatoria
          (req_data (mk_request ''PUT'' u_monitor (close_payload 1 [(1, 10), (2, 15)])))
    \<and> get_key (req_data (mk_request ''PUT'' u_monitor (close_payload 1 [(1, 10), (2, 15)]))) ''id''
        = Some (JInt 1)
    \<and> truthy (JInt 1) \<and> to_int fw_grant (JInt 1) = Some 1
    \<and> find_sumula (sumula_table Classificatoria db1) 1 = Some sc_open
    \<and> get_object db1 (mk_request ''PUT'' u_monitor (close_payload 1 [(1, 10), (2, 15)])) = Inr ev1
    \<and> http_method (mk_request ''PUT'' u_monitor (close_payload 1 [(1, 10), (2, 15)])) = ''PUT''
    \<and> has_perm fw_grant (req_user (mk_request ''PUT'' u_monitor (close_payload 1 [(1, 10), (2, 15)])))
          ''api.change_sumula_event'' ev1
    \<and> find_staff_of db1 (req_user (mk_request ''PUT'' u_monitor (close_payload 1 [(1, 10), (2, 15)]))) ev1
        = Some st_monitor
    \<and> active sc_open \<and> staff_id st_monitor \<notin> set (referee sc_open)
    \<and> (\<exists>d'. update_sumula fw_grant Classificatoria
                (mk_request ''PUT'' u_monitor (close_payload 1 [(1, 10), (2, 15)])) sc_open ev1 db1 = Inr d'))
   \<and> fst (sumula_put Classificatoria fw_grant
             (mk_request ''PUT'' u_monitor (close_payload 1 [(1, 10), (2, 15)])) db1) = Response 200 JNull"
proof -
  obtain d' where u: "update_sumula fw_grant Classificatoria
      (mk_request ''PUT'' u_monitor (close_payload 1 [(1, 10), (2, 15)])) sc_open ev1 db1 = Inr d'"
    by (simp add: fixtures lookups update_sumula_def resolve_staff_def resolve_entry_def
        resolve_score_def)
  have h: "validate_request_data_dict (req_data (mk_request ''PUT'' u_monitor (close_payload 1 [(1, 10), (2, 15)])))"
    "list_all (has_key (req_data (mk_request ''PUT'' u_monitor (close_payload 1 [(1, 10), (2, 15)]))))
          [''id'', ''name'', ''description'']"
    "Classificatoria = Classificatoria \<longrightarrow> validate_players_score fw_grant db1 Classificatoria
          (req_data (mk_request ''PUT'' u_monitor (close_payload 1 [(1, 10), (2, 15)])))"
    "get_key (req_data (mk_request ''PUT'' u_monitor (close_payload 1 [(1, 10), (2, 15)]))) ''id''
        = Some (JInt 1)"
    "truthy (JInt 1)" "to_int fw_grant (JInt 1) = Some 1"
    "find_sumula (sumula_table Classificatoria db1) 1 = Some sc_open"
    "get_object db1 (mk_request ''PUT'' u_monitor (close_payload 1 [(1, 10), (2, 15)])) = Inr ev1"
    "http_method (mk_request ''PUT'' u_monitor (close_payload 1 [(1, 10), (2, 15)])) = ''PUT''"
    "has_perm fw_grant (req_user (mk_request ''PUT'' u_monitor (close_payload 1 [(1, 10), (2, 15)])))
          ''api.change_sumula_event'' ev1"
    "find_staff_of db1 (req_user (mk_request ''PUT'' u_monitor (close_payload 1 [(1, 10), (2, 15)]))) ev1
        = Some st_monitor"
    "active sc_open"
    by (simp_all add: fixtures lookups validate_players_score_def resolve_score_def)
  have n: "staff_id st_monitor \<notin> set (referee sc_open)"
    by (simp add: fixtures)
  from open_sumula_editable_by_staff [OF h u] h n u show ?thesis
    by simp
qed

section \<open>Invalid player-score entries\<close>

text \<open>
  C8, at a failing input. An Update/Close on the open sumula classificatoria whose first
  player-score entry has no \<open>id\<close> is rejected with status 400 and nothing is written,
  but the message is the literal of line 140, \<^verbatim>\<open>"Dados Invalidos!"\<close>, which is not the
  message of line 138 (with a small i and U+00E1 for the accented a) that the claim and
  the tests of the repository expect.
\<close>

theorem put_missing_score_id_message:
  "SumulaClassificatoriaView_put fw_grant (mk_request ''PUT'' u_monitor close_payload_missing_id) db1
     = (handle_400_error dados_Invalidos_140, db1)
   \<and> handle_400_error dados_Invalidos_140 \<noteq> handle_400_error dados_invalidos"
  by (simp add: SumulaClassificatoriaView_put_def fixtures validate_players_score_def
      resolve_score_def handle_400_error_def dados_Invalidos_140_def dados_invalidos_def)

theorem put_missing_score_id_message_witness:
  "fst (SumulaClassificatoriaView_put fw_grant (mk_request ''PUT'' u_monitor close_payload_missing_id) db1)
     = Response 400 (JObj [(''errors'', JStr ''Dados Invalidos!'')])
   \<and> snd (SumulaClassificatoriaView_put fw_grant (mk_request ''PUT'' u_monitor close_payload_missing_id) db1)
     = db1"
  using put_missing_score_id_message
  by (simp add: handle_400_error_def dados_Invalidos_140_def)

section \<open>Player view\<close>

text \<open>
  C9. For a player of the event whom \<^verbatim>\<open>GetSumulaForPlayerPermission\<close> admits, the
  player-facing view returns the sumulas of the family that matches the player's
  eligibility class (imortal players the imortal sumulas, the others the
  classificatorias): exactly those in which the player has a PlayerScore and whose
  \<open>active\<close> flag is true, the keys of each table being unique. No view that the
  operation produces contains a \<open>points\<close> field, at any depth. When there is no such
  sumula the operation answers 400 with a not-found message, not an empty list.
\<close>

theorem player_view_projection:
  assumes "get_object d req = Inr ev" and "player_has_object_permission fw req ev"
    and "find_player_of d (req_user req) ev = Some p"
    and "v = (if is_imortal p then Imortal else Classificatoria)"
    and "distinct (map sumula_id (sumula_table v d))"
  shows "set (active_sumulas_of d v p) =
           {s \<in> set (sumula_table v d). active s
              \<and> (\<exists>ps \<in> set (player_scores d).
                    score_player ps = player_id p \<and> score_sumula v ps = Some (sumula_id s))}
       \<and> (active_sumulas_of d v p \<noteq> [] \<longrightarrow>
            GetSumulaForPlayer_get fw req d =
              (Response 200 (JList (map (SumulaForPlayerSerializer d v) (active_sumulas_of d v p))), d))
       \<and> (active_sumulas_of d v p = [] \<longrightarrow>
            GetSumulaForPlayer_get fw req d = (handle_400_error no_associated_sumula, d))
       \<and> (\<forall>body. fst (GetSumulaForPlayer_get fw req d) = Response 200 body
            \<longrightarrow> ''points'' \<notin> set (json_keys body))"
proof -
  have sel: "set (active_sumulas_of d v p) =
           {s \<in> set (sumula_table v d). active s
              \<and> (\<exists>ps \<in> set (player_scores d).
                    score_player ps = player_id p \<and> score_sumula v ps = Some (sumula_id s))}"
  proof -
    let ?f = "\<lambda>ps. if score_player ps = player_id p
             then (case score_sumula v ps of
                     None \<Rightarrow> None
                   | Some i \<Rightarrow>
                       (case find_sumula (sumula_table v d) i of
                          None \<Rightarrow> None
                        | Some s \<Rightarrow> if active s then Some s else None))
             else None"
    have f: "?f ps = Some s \<longleftrightarrow>
               score_player ps = player_id p \<and> score_sumula v ps = Some (sumula_id s)
               \<and> s \<in> set (sumula_table v d) \<and> active s" for ps s
    proof (cases "score_sumula v ps")
      case None
      then show ?thesis by simp
    next
      case (Some i)
      show ?thesis
      proof (cases "find_sumula (sumula_table v d) i")
        case None
        then have "\<not> (s \<in> set (sumula_table v d) \<and> sumula_id s = i)"
          using find_distinct_key [OF assms(5), of i s] by (simp add: find_sumula_def)
        with None Some show ?thesis by auto
      next
        case (Some s')
        then have "s' \<in> set (sumula_table v d) \<and> sumula_id s' = i"
          using find_distinct_key [OF assms(5), of i s'] by (simp add: find_sumula_def)
        moreover have "s \<in> set (sumula_table v d) \<and> sumula_id s = i \<longrightarrow> s = s'"
          using find_distinct_key [OF assms(5), of i s] Some by (auto simp: find_sumula_def)
        ultimately show ?thesis
          using Some \<open>score_sumula v ps = Some i\<close> by auto
      qed
    qed
    show ?thesis
      unfolding active_sumulas_of_def set_map_filter f by blast
  qed
  have run: "GetSumulaForPlayer_get fw req d =
           (if active_sumulas_of d v p = [] then (handle_400_error no_associated_sumula, d)
            else (Response 200 (JList (map (SumulaForPlayerSerializer d v) (active_sumulas_of d v p))), d))"
    by (rule player_get_unfold [OF assms(1-4)])
  have hide: "''points'' \<notin> set (json_keys body)"
    if "fst (GetSumulaForPlayer_get fw req d) = Response 200 body" for body
  proof -
    from player_get_body [OF that] obtain w ss
      where "body = JList (map (SumulaForPlayerSerializer d w) ss)" by blast
    then show ?thesis
      using no_points_player_view [of d w] by auto
  qed
  from sel run hide show ?thesis
    by simp
qed

theorem player_view_projection_witness:
  "(get_object db1 (mk_request ''GET'' u_player3 JNull) = Inr ev1
    \<and> player_has_object_permission fw_grant (mk_request ''GET'' u_player3 JNull) ev1
    \<and> find_player_of db1 (req_user (mk_request ''GET'' u_player3 JNull)) ev1 = Some pl3
    \<and> Imortal = (if is_imortal pl3 then Imortal else Classificatoria)
    \<and> distinct (map sumula_id (sumula_table Imortal db1)))
   \<and> set (active_sumulas_of db1 Imortal pl3) = {si_open}
   \<and> GetSumulaForPlayer_get fw_grant (mk_request ''GET'' u_player3 JNull) db1
       = (Response 200 (JList [SumulaForPlayerSerializer db1 Imortal si_open]), db1)
   \<and> ''points'' \<notin> set (json_keys (JList [SumulaForPlayerSerializer db1 Imortal si_open]))"
proof -
  have h: "get_object db1 (mk_request ''GET'' u_player3 JNull) = Inr ev1"
    "player_has_object_permission fw_grant (mk_request ''GET'' u_player3 JNull) ev1"
    "find_player_of db1 (req_user (mk_request ''GET'' u_player3 JNull)) ev1 = Some pl3"
    "Imortal = (if is_imortal pl3 then Imortal else Classificatoria)"
    "distinct (map sumula_id (sumula_table Imortal db1))"
    by (simp_all add: fixtures lookups player_has_object_permission_def)
  have a: "active_sumulas_of db1 Imortal pl3 = [si_open]"
    by (simp add: active_sumulas_of_def List.map_filter_def fixtures lookups)
  note t = player_view_projection [OF h]
  from t a have s: "set (active_sumulas_of db1 Imortal pl3) = {si_open}"
    by simp
  from t a have g: "GetSumulaForPlayer_get fw_grant (mk_request ''GET'' u_player3 JNull) db1
       = (Response 200 (JList [SumulaForPlayerSerializer db1 Imortal si_open]), db1)"
    by simp
  from t have "\<forall>body. fst (GetSumulaForPlayer_get fw_grant (mk_request ''GET'' u_player3 JNull) db1) = Response 200 body
            \<longrightarrow> ''points'' \<notin> set (json_keys body)"
    by blast
  with g have k: "''points'' \<notin> set (json_keys (JList [SumulaForPlayerSerializer db1 Imortal si_open]))"
    by simp
  from h s g k show ?thesis
    by blast
qed

section \<open>Create\<close>

text \<open>
  C1. For every create request on a sumula of either family with N player references:
  if all references resolve, the request passing the other validations of the payload
  and the permission gate, the call answers 201 and after it exactly one new sumula row
  (active, with the supplied name, under a key no other row of the table has) and exactly
  N new PlayerScore rows exist, each with \<open>points = 0\<close> and pointing at the new sumula,
  the table of the other family being as before; if a player reference fails to resolve,
  the operation reports the validation failure and the database is as it was: neither
  the sumula row nor any PlayerScore row is persisted.
\<close>

theorem create_is_atomic:
  "(validate_request_data_dict (req_data req) \<and> has_key (req_data req) ''name''
      \<and> validate_referees fw d req
      \<and> get_key (req_data req) ''players'' = Some (JList ps) \<and> ps \<noteq> []
      \<and> list_all is_dict_with_id ps
      \<and> get_object d req = Inr ev \<and> has_object_permission fw req ev
      \<and> get_key (req_data req) ''name'' = Some jn \<and> to_text fw jn = Some nm
      \<and> list_all (\<lambda>p. resolve_player fw d v ev p \<noteq> None) ps
    \<longrightarrow> (\<exists>body. fst (sumula_post v fw req d) = Response 201 body)
        \<and> (\<exists>s' new.
               sumula_table v (snd (sumula_post v fw req d)) = sumula_table v d @ [s']
               \<and> sumula_id s' \<notin> sumula_id ` set (sumula_table v d)
               \<and> name s' = nm \<and> active s' \<and> sumula_event s' = event_id ev
               \<and> sumula_table (other v) (snd (sumula_post v fw req d)) = sumula_table (other v) d
               \<and> player_scores (snd (sumula_post v fw req d)) = player_scores d @ new
               \<and> length new = length ps
               \<and> (\<forall>x \<in> set new. points x = 0 \<and> score_sumula v x = Some (sumula_id s'))))
   \<and> (get_key (req_data req) ''players'' = Some (JList ps) \<and> get_object d req = Inr ev
      \<and> \<not> list_all (\<lambda>p. resolve_player fw d v ev p \<noteq> None) ps
    \<longrightarrow> sumula_post v fw req d = (handle_400_error dados_invalidos, d))"
proof (rule conjI; rule impI)
  assume a: "validate_request_data_dict (req_data req) \<and> has_key (req_data req) ''name''
      \<and> validate_referees fw d req
      \<and> get_key (req_data req) ''players'' = Some (JList ps) \<and> ps \<noteq> []
      \<and> list_all is_dict_with_id ps
      \<and> get_object d req = Inr ev \<and> has_object_permission fw req ev
      \<and> get_key (req_data req) ''name'' = Some jn \<and> to_text fw jn = Some nm
      \<and> list_all (\<lambda>p. resolve_player fw d v ev p \<noteq> None) ps"
  then have dict: "validate_request_data_dict (req_data req)" and hn: "has_key (req_data req) ''name''"
    and vr: "validate_referees fw d req"
    and kp: "get_key (req_data req) ''players'' = Some (JList ps)" and ne: "ps \<noteq> []"
    and shape: "list_all is_dict_with_id ps"
    and go: "get_object d req = Inr ev" and perm: "has_object_permission fw req ev"
    and kn: "get_key (req_data req) ''name'' = Some jn" and nm: "to_text fw jn = Some nm"
    and all: "list_all (\<lambda>p. resolve_player fw d v ev p \<noteq> None) ps"
    by simp_all
  have vp: "validate_players fw d v req"
    using kp ne shape go all by (simp add: validate_players_def)
  define s where "s = new_sumula (sumula_table v d) ev nm"
  define d1 where "d1 = set_sumula_table v (sumula_table v d @ [s]) d"
  note run = sumula_post_unfold [OF dict hn vp vr go perm kn nm kp s_def d1_def]
  have res: "resolve_player fw d1 v ev = resolve_player fw d v ev"
    by (rule resolve_player_players) (simp add: d1_def sumula_table_set)
  have fresh: "\<forall>r \<in> set (sumula_table v d). sumula_id r \<noteq> sumula_id s"
  proof
    fix r assume "r \<in> set (sumula_table v d)"
    then have "sumula_id r \<in> set (map sumula_id (sumula_table v d))" by simp
    then have "sumula_id r < next_id (map sumula_id (sumula_table v d))"
      by (rule next_id_fresh)
    then show "sumula_id r \<noteq> sumula_id s"
      by (simp add: s_def new_sumula_def)
  qed
  have s_fields: "name s = nm" "active s" "sumula_event s = event_id ev"
    by (simp_all add: s_def new_sumula_def)
  from those_map_Some [OF all] obtain qs
    where qs: "those (map (resolve_player fw d v ev) ps) = Some qs" by blast
  define d2 where "d2 = d1\<lparr>player_scores := create_scores v (sumula_id s) ev qs (player_scores d1)\<rparr>"
  have cps: "create_players_score fw v ps s ev d1 = Inr d2"
    by (simp add: create_players_score_def res qs d2_def)
  from create_scores_append [of v "sumula_id s" ev qs "player_scores d"] obtain new
    where new: "create_scores v (sumula_id s) ev qs (player_scores d) = player_scores d @ new"
      "length new = length qs" "\<forall>x \<in> set new. points x = 0 \<and> score_sumula v x = Some (sumula_id s)"
    by blast
  have len: "length new = length ps"
    using new(2) those_map_length [OF qs] by simp
  have d2_scores: "player_scores d2 = player_scores d @ new"
    by (simp add: d2_def d1_def sumula_table_set new(1))
  have d2_tbl: "sumula_table v d2 = sumula_table v d @ [s]"
    and d2_other: "sumula_table (other v) d2 = sumula_table (other v) d"
    by (cases v; simp add: d2_def d1_def)+
  have d2_staffs: "staffs d2 = staffs d"
    by (simp add: d2_def d1_def sumula_table_set)
  from vr go obtain rs where kr: "get_key (req_data req) ''referees'' = Some (JList rs)"
    and rall: "list_all (\<lambda>r. resolve_staff fw d ev r \<noteq> None) rs"
    by (auto simp: validate_referees_def split: option.splits json.splits)
  from those_map_Some [OF rall] obtain sts :: "staff list"
    where sts: "those (map (resolve_staff fw d ev) rs) = Some sts" by blast
  define d3 where "d3 = set_sumula_table v
                 (update_rows (\<lambda>r. sumula_id r = sumula_id s)
                    (\<lambda>r. fold referee_add (map staff_id sts) r) (sumula_table v d2)) d2"
  have ar: "add_referees fw v s ev rs d2 = Inr d3"
    by (simp add: add_referees_def resolve_staff_staffs [OF d2_staffs] sts d3_def)
  have out: "sumula_post v fw req d
               = (Response 201 (SumulaSerializer d3 v (with_referees_of d3 v s)), d3)"
    using run cps kr ar by simp
  let ?s' = "fold referee_add (map staff_id sts) s"
  have tbl: "sumula_table v d3 = sumula_table v d @ [?s']"
    unfolding d3_def sumula_table_set d2_tbl
    using fresh by (intro update_rows_last) simp_all
  have oth: "sumula_table (other v) d3 = sumula_table (other v) d"
    unfolding d3_def sumula_table_set by (rule d2_other)
  have sc: "player_scores d3 = player_scores d @ new"
    unfolding d3_def sumula_table_set by (rule d2_scores)
  have rows: "\<exists>s' new.
               sumula_table v (snd (sumula_post v fw req d)) = sumula_table v d @ [s']
               \<and> sumula_id s' \<notin> sumula_id ` set (sumula_table v d)
               \<and> name s' = nm \<and> active s' \<and> sumula_event s' = event_id ev
               \<and> sumula_table (other v) (snd (sumula_post v fw req d)) = sumula_table (other v) d
               \<and> player_scores (snd (sumula_post v fw req d)) = player_scores d @ new
               \<and> length new = length ps
               \<and> (\<forall>x \<in> set new. points x = 0 \<and> score_sumula v x = Some (sumula_id s'))"
    unfolding out snd_conv
    using tbl oth sc len new(3) fresh s_fields fold_referee_add_fields [of "map staff_id sts" s]
    by auto
  have created: "\<exists>body. fst (sumula_post v fw req d) = Response 201 body"
    unfolding out by simp
  from created rows
  show "(\<exists>body. fst (sumula_post v fw req d) = Response 201 body)
        \<and> (\<exists>s' new.
               sumula_table v (snd (sumula_post v fw req d)) = sumula_table v d @ [s']
               \<and> sumula_id s' \<notin> sumula_id ` set (sumula_table v d)
               \<and> name s' = nm \<and> active s' \<and> sumula_event s' = event_id ev
               \<and> sumula_table (other v) (snd (sumula_post v fw req d)) = sumula_table (other v) d
               \<and> player_scores (snd (sumula_post v fw req d)) = player_scores d @ new
               \<and> length new = length ps
               \<and> (\<forall>x \<in> set new. points x = 0 \<and> score_sumula v x = Some (sumula_id s')))"
    by (rule conjI)
next
  assume "get_key (req_data req) ''players'' = Some (JList ps) \<and> get_object d req = Inr ev
      \<and> \<not> list_all (\<lambda>p. resolve_player fw d v ev p \<noteq> None) ps"
  then have "\<not> validate_players fw d v req"
    by (simp add: validate_players_def)
  then show "sumula_post v fw req d = (handle_400_error dados_invalidos, d)"
    by (simp add: sumula_post_def)
qed

theorem create_is_atomic_witness:
  "(validate_request_data_dict (req_data (mk_request ''POST'' u_admin (create_payload 1 2)))
    \<and> has_key (req_data (mk_request ''POST'' u_admin (create_payload 1 2))) ''name''
    \<and> validate_referees fw_grant db1 (mk_request ''POST'' u_admin (create_payload 1 2))
    \<and> get_key (req_data (mk_request ''POST'' u_admin (create_payload 1 2))) ''players''
        = Some (JList [JObj [(''id'', JInt 1)], JObj [(''id'', JInt 2)]])
    \<and> [JObj [(''id'', JInt 1)], JObj [(''id'', JInt 2)]] \<noteq> []
    \<and> list_all is_dict_with_id [JObj [(''id'', JInt 1)], JObj [(''id'', JInt 2)]]
    \<and> get_object db1 (mk_request ''POST'' u_admin (create_payload 1 2)) = Inr ev1
    \<and> has_object_permission fw_grant (mk_request ''POST'' u_admin (create_payload 1 2)) ev1
    \<and> get_key (req_data (mk_request ''POST'' u_admin (create_payload 1 2))) ''name'' = Some (JStr ''chave 03'')
    \<and> to_text fw_grant (JStr ''chave 03'') = Some ''chave 03''
    \<and> list_all (\<lambda>p. resolve_player fw_grant db1 Classificatoria ev1 p \<noteq> None)
          [JObj [(''id'', JInt 1)], JObj [(''id'', JInt 2)]])
   \<and> (\<exists>body. fst (sumula_post Classificatoria fw_grant (mk_request ''POST'' u_admin (create_payload 1 2)) db1)
                = Response 201 body)
   \<and> length (sumula_table Classificatoria
         (snd (sumula_post Classificatoria fw_grant (mk_request ''POST'' u_admin (create_payload 1 2)) db1)))
       = length (sumula_table Classificatoria db1) + 1
   \<and> length (player_scores
         (snd (sumula_post Classificatoria fw_grant (mk_request ''POST'' u_admin (create_payload 1 2)) db1)))
       = length (player_scores db1) + 2
   \<and> (get_key (req_data (mk_request ''POST'' u_admin (create_payload 1 9))) ''players''
        = Some (JList [JObj [(''id'', JInt 1)], JObj [(''id'', JInt 9)]])
      \<and> get_object db1 (mk_request ''POST'' u_admin (create_payload 1 9)) = Inr ev1
      \<and> \<not> list_all (\<lambda>p. resolve_player fw_grant db1 Classificatoria ev1 p \<noteq> None)
            [JObj [(''id'', JInt 1)], JObj [(''id'', JInt 9)]])
   \<and> sumula_post Classificatoria fw_grant (mk_request ''POST'' u_admin (create_payload 1 9)) db1
       = (handle_400_error dados_invalidos, db1)"
proof -
  have h: "validate_request_data_dict (req_data (mk_request ''POST'' u_admin (create_payload 1 2)))
    \<and> has_key (req_data (mk_request ''POST'' u_admin (create_payload 1 2))) ''name''
    \<and> validate_referees fw_grant db1 (mk_request ''POST'' u_admin (create_payload 1 2))
    \<and> get_key (req_data (mk_request ''POST'' u_admin (create_payload 1 2))) ''players''
        = Some (JList [JObj [(''id'', JInt 1)], JObj [(''id'', JInt 2)]])
    \<and> [JObj [(''id'', JInt 1)], JObj [(''id'', JInt 2)]] \<noteq> []
    \<and> list_all is_dict_with_id [JObj [(''id'', JInt 1)], JObj [(''id'', JInt 2)]]
    \<and> get_object db1 (mk_request ''POST'' u_admin (create_payload 1 2)) = Inr ev1
    \<and> has_object_permission fw_grant (mk_request ''POST'' u_admin (create_payload 1 2)) ev1
    \<and> get_key (req_data (mk_request ''POST'' u_admin (create_payload 1 2))) ''name'' = Some (JStr ''chave 03'')
    \<and> to_text fw_grant (JStr ''chave 03'') = Some ''chave 03''
    \<and> list_all (\<lambda>p. resolve_player fw_grant db1 Classificatoria ev1 p \<noteq> None)
          [JObj [(''id'', JInt 1)], JObj [(''id'', JInt 2)]]"
    by (simp add: fixtures lookups validate_referees_def resolve_staff_def resolve_player_def
        has_object_permission_def)
  have g: "get_key (req_data (mk_request ''POST'' u_admin (create_payload 1 9))) ''players''
        = Some (JList [JObj [(''id'', JInt 1)], JObj [(''id'', JInt 9)]])
      \<and> get_object db1 (mk_request ''POST'' u_admin (create_payload 1 9)) = Inr ev1
      \<and> \<not> list_all (\<lambda>p. resolve_player fw_grant db1 Classificatoria ev1 p \<noteq> None)
            [JObj [(''id'', JInt 1)], JObj [(''id'', JInt 9)]]"
    by (simp add: fixtures lookups resolve_player_def)
  note ok = create_is_atomic [THEN conjunct1, rule_format, OF h]
  note bad = create_is_atomic [THEN conjunct2, rule_format, OF g]
  from ok have c: "\<exists>body. fst (sumula_post Classificatoria fw_grant (mk_request ''POST'' u_admin (create_payload 1 2)) db1)
                = Response 201 body"
    by (rule conjunct1)
  from ok have l: "length (sumula_table Classificatoria
         (snd (sumula_post Classificatoria fw_grant (mk_request ''POST'' u_admin (create_payload 1 2)) db1)))
       = length (sumula_table Classificatoria db1) + 1
   \<and> length (player_scores
         (snd (sumula_post Classificatoria fw_grant (mk_request ''POST'' u_admin (create_payload 1 2)) db1)))
       = length (player_scores db1) + 2"
    by auto
  from h c l g bad show ?thesis
    by (intro conjI) simp_all
qed

section \<open>Irreversibility\<close>

text \<open>
  C3. For every sumula whose \<open>active\<close> flag is false and every sequence of requests to
  the views of the system (create, the three listings, the player view, update/close,
  add-referee), with any payloads and any users: after the requests the sumula is still
  in its table and its \<open>active\<close> flag is still false. The keys of the table are unique
  at the start.
\<close>

theorem closed_is_irreversible:
  assumes "s \<in> set (sumula_table v d)" and "\<not> active s"
    and "distinct (map sumula_id (sumula_table v d))"
  shows "(\<exists>r \<in> set (sumula_table v (run_requests fw ops d)). sumula_id r = sumula_id s)
       \<and> (\<forall>r \<in> set (sumula_table v (run_requests fw ops d)).
             sumula_id r = sumula_id s \<longrightarrow> \<not> active r)"
proof -
  from assms have "closed_at (sumula_id s) (sumula_table v d)"
    by (rule closed_at_distinct)
  with run_requests_closed [of d fw ops]
  have "closed_at (sumula_id s) (sumula_table v (run_requests fw ops d))"
    by (simp add: closed_stay_closed_def)
  then show ?thesis
    by (auto simp: closed_at_def)
qed

theorem closed_is_irreversible_witness:
  "(sc_closed \<in> set (sumula_table Classificatoria db1) \<and> \<not> active sc_closed
    \<and> distinct (map sumula_id (sumula_table Classificatoria db1)))
   \<and> sumula_id sc_closed \<in> sumula_id ` set (sumula_table Classificatoria
          (run_requests fw_grant
             [(SumulaClassificatoriaView, mk_request ''PUT'' u_manager (close_payload 2 [(3, 9)])),
              (AddRefereeToSumulaView, mk_request ''PUT'' u_monitor (referee_payload 2 False)),
              (SumulaClassificatoriaView, mk_request ''POST'' u_admin (create_payload 1 2)),
              (GetSumulasView, mk_request ''GET'' u_admin JNull)] db1))
   \<and> filter (\<lambda>r. sumula_id r = sumula_id sc_closed \<and> active r)
         (sumula_table Classificatoria
          (run_requests fw_grant
             [(SumulaClassificatoriaView, mk_request ''PUT'' u_manager (close_payload 2 [(3, 9)])),
              (AddRefereeToSumulaView, mk_request ''PUT'' u_monitor (referee_payload 2 False)),
              (SumulaClassificatoriaView, mk_request ''POST'' u_admin (create_payload 1 2)),
              (GetSumulasView, mk_request ''GET'' u_admin JNull)] db1)) = []"
proof -
  define T where "T = sumula_table Classificatoria
          (run_requests fw_grant
             [(SumulaClassificatoriaView, mk_request ''PUT'' u_manager (close_payload 2 [(3, 9)])),
              (AddRefereeToSumulaView, mk_request ''PUT'' u_monitor (referee_payload 2 False)),
              (SumulaClassificatoriaView, mk_request ''POST'' u_admin (create_payload 1 2)),
              (GetSumulasView, mk_request ''GET'' u_admin JNull)] db1)"
  have h: "sc_closed \<in> set (sumula_table Classificatoria db1)" "\<not> active sc_closed"
    "distinct (map sumula_id (sumula_table Classificatoria db1))"
    by (simp_all add: fixtures)
  have t: "(\<exists>r \<in> set T. sumula_id r = sumula_id sc_closed)
       \<and> (\<forall>r \<in> set T. sumula_id r = sumula_id sc_closed \<longrightarrow> \<not> active r)"
    unfolding T_def by (rule closed_is_irreversible [OF h])
  from t have a: "sumula_id sc_closed \<in> sumula_id ` set T"
    by (metis imageI)
  from t have b: "filter (\<lambda>r. sumula_id r = sumula_id sc_closed \<and> active r) T = []"
    unfolding filter_empty_conv by blast
  from h a b show ?thesis
    unfolding T_def by (intro conjI)
qed

section \<open>Update and close\<close>

text \<open>
  C2. After every successful Update/Close on an existing sumula: the name of the sumula
  is the supplied name, its referee set is exactly the set of the supplied referees, its
  \<open>active\<close> flag is false, the points of each supplied player-score entry are the
  supplied value, and for every player who owns one of those entries
  \<open>total_score\<close> equals the defined aggregation of the player's PlayerScore points.
  The payload names each PlayerScore at most once, and the keys of the PlayerScore table
  are unique.
\<close>

theorem update_close_effects:
  assumes "sumula_put v fw req d = (Response 200 body, d')"
    and "get_key (req_data req) ''id'' = Some j" and "to_int fw j = Some i"
    and "get_object d req = Inr ev"
    and "get_key (req_data req) ''name'' = Some jn" and "to_text fw jn = Some nm"
    and "get_key (req_data req) ''referee'' = Some (JList rs)"
    and "those (map (resolve_staff fw d ev) rs) = Some sts"
    and "get_key (req_data req) ''players_score'' = Some (JList es)"
    and "those (map (resolve_entry fw d v i) es) = Some ws"
    and "distinct (map (\<lambda>w. score_id (fst w)) ws)"
    and "distinct (map score_id (player_scores d))"
  shows "(\<exists>r \<in> set (sumula_table v d'). sumula_id r = i)
       \<and> (\<forall>r \<in> set (sumula_table v d'). sumula_id r = i \<longrightarrow>
             name r = nm \<and> set (referee r) = staff_id ` set sts \<and> \<not> active r)
       \<and> (\<forall>w \<in> set ws.
             (\<exists>r \<in> set (player_scores d'). score_id r = score_id (fst w))
             \<and> (\<forall>r \<in> set (player_scores d'). score_id r = score_id (fst w) \<longrightarrow> points r = snd w)
             \<and> total_score_consistent d' (score_player (fst w)))"
proof -
  from sumula_put_success [OF assms(1)]
  obtain j' i' s ev' where
    "get_key (req_data req) ''id'' = Some j'" "to_int fw j' = Some i'"
    "find_sumula (sumula_table v d) i' = Some s" "get_object d req = Inr ev'"
    "update_sumula fw v req s ev' d = Inr d'"
    by blast
  with assms(2,3,4) have s: "find_sumula (sumula_table v d) i = Some s"
    and upd: "update_sumula fw v req s ev d = Inr d'"
    by simp_all
  have sid: "sumula_id s = i"
    using s by (rule find_sumula_id)
  have s_mem: "s \<in> set (sumula_table v d)"
    using s by (auto simp: find_sumula_def find_Some_iff)
  let ?F = "\<lambda>r. r\<lparr>name := nm, referee := remdups (map staff_id sts), active := False\<rparr>"
  let ?d0 = "set_sumula_table v (update_rows (\<lambda>r. sumula_id r = i) ?F (sumula_table v d)) d"
  have d': "d' = fold (\<lambda>(ps, n). write_points ps n) ws ?d0"
    using update_sumula_result [OF upd assms(5-9)] assms(10) by (simp add: sid)
  have tbl: "sumula_table v d' = update_rows (\<lambda>r. sumula_id r = i) ?F (sumula_table v d)"
    unfolding d' fold_write_points_tables by (simp only: sumula_table_set)
  have m: "?F s \<in> set (update_rows (\<lambda>r. sumula_id r = i) ?F (sumula_table v d))"
    unfolding update_rows_def set_map using s_mem sid by (intro image_eqI [of _ _ s]) simp_all
  have ex: "\<exists>r \<in> set (sumula_table v d'). sumula_id r = i"
    unfolding tbl by (rule bexI [OF _ m]) (simp add: sid)
  have fields: "\<forall>r \<in> set (sumula_table v d'). sumula_id r = i \<longrightarrow>
             name r = nm \<and> set (referee r) = staff_id ` set sts \<and> \<not> active r"
  proof (intro ballI impI)
    fix r assume r: "r \<in> set (sumula_table v d')" "sumula_id r = i"
    from r(1) obtain r0 where r0: "r = (if sumula_id r0 = i then ?F r0 else r0)"
      unfolding tbl update_rows_def set_map by (elim imageE)
    have "r = ?F r0"
    proof (cases "sumula_id r0 = i")
      case True
      with r0 show ?thesis by simp
    next
      case False
      with r0 r(2) show ?thesis by simp
    qed
    then show "name r = nm \<and> set (referee r) = staff_id ` set sts \<and> \<not> active r"
      by simp
  qed
  have scores0: "player_scores ?d0 = player_scores d"
    by (simp only: sumula_table_set)
  have entries: "(\<exists>r \<in> set (player_scores d'). score_id r = score_id (fst w))
             \<and> (\<forall>r \<in> set (player_scores d'). score_id r = score_id (fst w) \<longrightarrow> points r = snd w)
             \<and> total_score_consistent d' (score_player (fst w))"
    if w: "w \<in> set ws" for w
  proof -
    have mem: "fst x \<in> set (player_scores d)" if "x \<in> set ws" for x
    proof -
      from those_map_mem [OF assms(10) that] obtain e
        where "resolve_entry fw d v i e = Some x" by blast
      then show ?thesis
        using resolve_entry_mem [of fw d v i e "fst x" "snd x"] by simp
    qed
    have "score_id (fst w) \<in> set (map score_id (player_scores d))"
      using mem [OF w] by simp
    also have "map score_id (player_scores d) = map score_id (player_scores d')"
      unfolding d' fold_write_points_keys scores0 ..
    finally have e1: "\<exists>r \<in> set (player_scores d'). score_id r = score_id (fst w)"
      by auto
    have e2: "\<forall>r \<in> set (player_scores d'). score_id r = score_id (fst w) \<longrightarrow> points r = snd w"
      unfolding d'
      using fold_write_points_points [OF assms(11), of "fst w" "snd w" ?d0] w by simp
    have ok: "\<forall>x \<in> set ws. owner_ok ?d0 (fst x)"
    proof
      fix x assume "x \<in> set ws"
      from owner_ok_distinct [OF assms(12) mem [OF this]]
      show "owner_ok ?d0 (fst x)"
        by (simp add: owner_ok_def scores0)
    qed
    have e3: "total_score_consistent d' (score_player (fst w))"
      unfolding d' by (rule fold_write_points_consistent [OF ok w])
    from e1 e2 e3 show ?thesis by blast
  qed
  from ex fields entries show ?thesis
    by blast
qed

theorem update_close_effects_witness:
  "(fst (sumula_put Classificatoria fw_grant (mk_request ''PUT'' u_monitor (close_payload 1 [(1, 10), (2, 15)])) db1)
      = Response 200 JNull
    \<and> get_key (req_data (mk_request ''PUT'' u_monitor (close_payload 1 [(1, 10), (2, 15)]))) ''id'' = Some (JInt 1)
    \<and> to_int fw_grant (JInt 1) = Some 1
    \<and> get_object db1 (mk_request ''PUT'' u_monitor (close_payload 1 [(1, 10), (2, 15)])) = Inr ev1
    \<and> get_key (req_data (mk_request ''PUT'' u_monitor (close_payload 1 [(1, 10), (2, 15)]))) ''name''
        = Some (JStr ''final 01'')
    \<and> to_text fw_grant (JStr ''final 01'') = Some ''final 01''
    \<and> get_key (req_data (mk_request ''PUT'' u_monitor (close_payload 1 [(1, 10), (2, 15)]))) ''referee''
        = Some (JList [JObj [(''id'', JInt 1)], JObj [(''id'', JInt 2)]])
    \<and> those (map (resolve_staff fw_grant db1 ev1) [JObj [(''id'', JInt 1)], JObj [(''id'', JInt 2)]])
        = Some [st_monitor, st_manager]
    \<and> get_key (req_data (mk_request ''PUT'' u_monitor (close_payload 1 [(1, 10), (2, 15)]))) ''players_score''
        = Some (JList [score_entry (1, 10), score_entry (2, 15)])
    \<and> those (map (resolve_entry fw_grant db1 Classificatoria 1) [score_entry (1, 10), score_entry (2, 15)])
        = Some [(ps1, 10), (ps2, 15)]
    \<and> distinct (map (\<lambda>w. score_id (fst w)) [(ps1, 10 :: int), (ps2, 15)])
    \<and> distinct (map score_id (player_scores db1)))
   \<and> map (\<lambda>r. (name r, referee r, active r))
         (filter (\<lambda>r. sumula_id r = 1)
            (sumula_table Classificatoria
               (snd (sumula_put Classificatoria fw_grant
                       (mk_request ''PUT'' u_monitor (close_payload 1 [(1, 10), (2, 15)])) db1))))
       = [(''final 01'', [1, 2], False)]
   \<and> map (\<lambda>r. (score_id r, points r))
         (player_scores
            (snd (sumula_put Classificatoria fw_grant
                    (mk_request ''PUT'' u_monitor (close_payload 1 [(1, 10), (2, 15)])) db1)))
       = [(1, 10), (2, 15), (3, 7), (4, 0)]
   \<and> map (\<lambda>p. (player_id p, total_score p))
         (players
            (snd (sumula_put Classificatoria fw_grant
                    (mk_request ''PUT'' u_monitor (close_payload 1 [(1, 10), (2, 15)])) db1)))
       = [(1, 17), (2, 15), (3, 0)]"
proof -
  have run: "sumula_put Classificatoria fw_grant (mk_request ''PUT'' u_monitor (close_payload 1 [(1, 10), (2, 15)])) db1
      = (Response 200 JNull,
         db1\<lparr>sumulas_classificatoria :=
                [sc_open\<lparr>name := ''final 01'', referee := [1, 2], active := False\<rparr>, sc_closed],
              player_scores := [ps1\<lparr>points := 10\<rparr>, ps2\<lparr>points := 15\<rparr>, ps3, ps4],
              players := [pl1\<lparr>total_score := 17\<rparr>, pl2\<lparr>total_score := 15\<rparr>, pl3]\<rparr>)"
    by (simp add: fixtures lookups put_defs)
  have h: "get_key (req_data (mk_request ''PUT'' u_monitor (close_payload 1 [(1, 10), (2, 15)]))) ''id'' = Some (JInt 1)"
    "to_int fw_grant (JInt 1) = Some 1"
    "get_object db1 (mk_request ''PUT'' u_monitor (close_payload 1 [(1, 10), (2, 15)])) = Inr ev1"
    "get_key (req_data (mk_request ''PUT'' u_monitor (close_payload 1 [(1, 10), (2, 15)]))) ''name''
        = Some (JStr ''final 01'')"
    "to_text fw_grant (JStr ''final 01'') = Some ''final 01''"
    "get_key (req_data (mk_request ''PUT'' u_monitor (close_payload 1 [(1, 10), (2, 15)]))) ''referee''
        = Some (JList [JObj [(''id'', JInt 1)], JObj [(''id'', JInt 2)]])"
    "those (map (resolve_staff fw_grant db1 ev1) [JObj [(''id'', JInt 1)], JObj [(''id'', JInt 2)]])
        = Some [st_monitor, st_manager]"
    "get_key (req_data (mk_request ''PUT'' u_monitor (close_payload 1 [(1, 10), (2, 15)]))) ''players_score''
        = Some (JList [score_entry (1, 10), score_entry (2, 15)])"
    "those (map (resolve_entry fw_grant db1 Classificatoria 1) [score_entry (1, 10), score_entry (2, 15)])
        = Some [(ps1, 10), (ps2, 15)]"
    "distinct (map (\<lambda>w. score_id (fst w)) [(ps1, 10 :: int), (ps2, 15)])"
    "distinct (map score_id (player_scores db1))"
    by (simp_all add: fixtures lookups resolve_staff_def resolve_entry_def resolve_score_def)
  note t = update_close_effects [OF run h]
  have s: "map (\<lambda>r. (name r, referee r, active r))
         (filter (\<lambda>r. sumula_id r = 1)
            (sumula_table Classificatoria
               (snd (sumula_put Classificatoria fw_grant
                       (mk_request ''PUT'' u_monitor (close_payload 1 [(1, 10), (2, 15)])) db1))))
       = [(''final 01'', [1, 2], False)]"
    "map (\<lambda>r. (score_id r, points r))
         (player_scores
            (snd (sumula_put Classificatoria fw_grant
                    (mk_request ''PUT'' u_monitor (close_payload 1 [(1, 10), (2, 15)])) db1)))
       = [(1, 10), (2, 15), (3, 7), (4, 0)]"
    "map (\<lambda>p. (player_id p, total_score p))
         (players
            (snd (sumula_put Classificatoria fw_grant
                    (mk_request ''PUT'' u_monitor (close_payload 1 [(1, 10), (2, 15)])) db1)))
       = [(1, 17), (2, 15), (3, 0)]"
    using t unfolding run by (simp_all add: fixtures)
  have f: "fst (sumula_put Classificatoria fw_grant (mk_request ''PUT'' u_monitor (close_payload 1 [(1, 10), (2, 15)])) db1)
      = Response 200 JNull"
    unfolding run by simp
  from f h s show ?thesis
    by (intro conjI)
qed

end
